theory Spec2Isabelle
  imports Complex_Main
begin

section \<open>JavaScript numbers\<close>

text \<open>
  A JavaScript Number is modelled as a real number or one of the three special values
  that the typed arrays and \<open>Math\<close> functions of the image code can meet. Finite
  arithmetic is exact real arithmetic; the rounding of a store into a
  \<open>Float32Array\<close> is a parameter of the encoder (\<open>f32\<close> below).
\<close>

datatype jsnum = NaN | NInf | Fin real | PInf

text \<open>\<open>Math.abs\<close>.\<close>

fun js_abs :: "jsnum \<Rightarrow> jsnum" where
  "js_abs NaN = NaN"
| "js_abs NInf = PInf"
| "js_abs PInf = PInf"
| "js_abs (Fin x) = Fin \<bar>x\<bar>"

text \<open>The relational operator \<open><=\<close>: false as soon as one side is \<open>NaN\<close>.\<close>

fun js_le :: "jsnum \<Rightarrow> jsnum \<Rightarrow> bool" where
  "js_le NaN _ = False"
| "js_le _ NaN = False"
| "js_le NInf _ = True"
| "js_le _ PInf = True"
| "js_le (Fin x) (Fin y) = (x \<le> y)"
| "js_le (Fin x) NInf = False"
| "js_le PInf (Fin y) = False"
| "js_le PInf NInf = False"

text \<open>The relational operator \<open><\<close>.\<close>

fun js_lt :: "jsnum \<Rightarrow> jsnum \<Rightarrow> bool" where
  "js_lt NaN _ = False"
| "js_lt _ NaN = False"
| "js_lt (Fin x) (Fin y) = (x < y)"
| "js_lt NInf NInf = False"
| "js_lt NInf _ = True"
| "js_lt PInf _ = False"
| "js_lt (Fin x) PInf = True"
| "js_lt (Fin x) NInf = False"

text \<open>\<open>Math.max\<close> and \<open>Math.min\<close> of two arguments: \<open>NaN\<close> is contagious.\<close>

fun js_max :: "jsnum \<Rightarrow> jsnum \<Rightarrow> jsnum" where
  "js_max NaN _ = NaN"
| "js_max _ NaN = NaN"
| "js_max a b = (if js_le a b then b else a)"

fun js_min :: "jsnum \<Rightarrow> jsnum \<Rightarrow> jsnum" where
  "js_min NaN _ = NaN"
| "js_min _ NaN = NaN"
| "js_min a b = (if js_le a b then a else b)"

text \<open>\<open>Math.round\<close>: the nearest integer, a tie goes up (\<open>floor (x + 0.5)\<close>).\<close>

fun js_round :: "jsnum \<Rightarrow> jsnum" where
  "js_round (Fin x) = Fin (of_int \<lfloor>x + 1 / 2\<rfloor>)"
| "js_round v = v"

text \<open>The product \<open>v * 255\<close> of the decoder (the right factor is a positive constant).\<close>

fun js_times255 :: "jsnum \<Rightarrow> jsnum" where
  "js_times255 (Fin x) = Fin (x * 255)"
| "js_times255 v = v"

text \<open>
  The conversion of a store into a \<open>Uint8ClampedArray\<close>: \<open>NaN\<close> becomes 0, the
  value is clamped to \<open>[0, 255]\<close> and rounded to the nearest integer, a tie to even.
\<close>

type_synonym byte = nat

definition round_half_even :: "real \<Rightarrow> int" where
  "round_half_even x =
     (let f = \<lfloor>x\<rfloor> in
      if x - of_int f < 1 / 2 then f
      else if 1 / 2 < x - of_int f then f + 1
      else if even f then f else f + 1)"

fun toUint8Clamp :: "jsnum \<Rightarrow> byte" where
  "toUint8Clamp NaN = 0"
| "toUint8Clamp NInf = 0"
| "toUint8Clamp PInf = 255"
| "toUint8Clamp (Fin x) =
     (if x \<le> 0 then 0 else if 255 \<le> x then 255 else nat (round_half_even x))"

section \<open>Configuration\<close>

text \<open>
  The constants of \<open>config.js\<close> that the modelled functions read. The file itself is
  not part of the sources at hand, so the constants are a parameter of every function
  that uses them.
\<close>

record config =
  WIDTH_RATIO :: real
  HEIGHT_RATIO :: real
  EXTENDED_RATIO :: real
  INPUT_SIZE :: nat
  OUTPUT_FORMAT :: string
  OUTPUT_QUALITY :: real
  MODEL_LOAD_FAILED :: string
  MODEL_PATH :: string
  MODEL_DOWNLOAD_START :: real
  MODEL_DOWNLOAD_END :: real
  MODEL_INIT :: real
  MODEL_READY :: real

text \<open>A configuration for the worked examples.\<close>

definition sample_config :: config where
  "sample_config =
     \<lparr>WIDTH_RATIO = 1 / 4, HEIGHT_RATIO = 1 / 10, EXTENDED_RATIO = 3 / 10, INPUT_SIZE = 4,
      OUTPUT_FORMAT = ''image/png'', OUTPUT_QUALITY = 1,
      MODEL_LOAD_FAILED = ''Failed to load AI model'', MODEL_PATH = ''model.onnx'',
      MODEL_DOWNLOAD_START = 10, MODEL_DOWNLOAD_END = 60, MODEL_INIT = 70, MODEL_READY = 80\<rparr>"

section \<open>Region calculator (\<open>utils.js\<close>)\<close>

record region =
  reg_x :: int
  reg_y :: int
  reg_width :: int
  reg_height :: int

text \<open>
  \<open>ratio || DEFAULT\<close>: the argument is a Number or \<open>null\<close> (its default value);
  \<open>null\<close> and \<open>0\<close> are falsy, so the configured constant is taken for them.
\<close>

fun js_or :: "real option \<Rightarrow> real \<Rightarrow> real" where
  "js_or None d = d"
| "js_or (Some r) d = (if r = 0 then d else r)"

definition calculateWatermarkRegion :: "config \<Rightarrow> int \<Rightarrow> int \<Rightarrow> real option \<Rightarrow> region" where
  "calculateWatermarkRegion cfg w h ratio =
     (let heightRatio = js_or ratio (HEIGHT_RATIO cfg);
          widthRatio = js_or ratio (WIDTH_RATIO cfg);
          regionWidth = \<lfloor>of_int w * widthRatio\<rfloor>;
          regionHeight = \<lfloor>of_int h * heightRatio\<rfloor>;
          x = w - regionWidth;
          y = h - regionHeight
      in \<lparr>reg_x = x, reg_y = y, reg_width = regionWidth, reg_height = regionHeight\<rparr>)"

section \<open>Tensor codec (\<open>image-processor.js\<close>)\<close>

text \<open>
  An \<open>ImageData\<close>: the dimensions and the flat RGBA bytes, row by row. A well-formed
  one holds \<open>4 * width * height\<close> bytes, each at most 255.
\<close>

record imageData =
  img_width :: nat
  img_height :: nat
  img_data :: "byte list"

record tensor =
  t_type :: string
  t_data :: "jsnum list"
  t_dims :: "nat list"

text \<open>
  Reading an element of a typed array as a Number. An index out of range reads
  \<open>undefined\<close>, which every arithmetic use below turns into \<open>NaN\<close>.
\<close>

definition byte_at :: "byte list \<Rightarrow> nat \<Rightarrow> jsnum" where
  "byte_at d k = (if k < length d then Fin (real (d ! k)) else NaN)"

definition num_at :: "jsnum list \<Rightarrow> nat \<Rightarrow> jsnum" where
  "num_at d k = (if k < length d then d ! k else NaN)"

text \<open>\<open>v / 255.0\<close>.\<close>

fun js_div255 :: "jsnum \<Rightarrow> jsnum" where
  "js_div255 (Fin x) = Fin (x / 255)"
| "js_div255 v = v"

text \<open>
  A store into a \<open>Float32Array\<close> rounds the Number to single precision; \<open>f32\<close> is
  that rounding on the finite values.
\<close>

fun store_f32 :: "(real \<Rightarrow> real) \<Rightarrow> jsnum \<Rightarrow> jsnum" where
  "store_f32 f32 (Fin x) = Fin (f32 x)"
| "store_f32 f32 v = v"

subsection \<open>\<open>preprocessImage\<close>\<close>

definition normalized_channel :: "(real \<Rightarrow> real) \<Rightarrow> byte list \<Rightarrow> nat \<Rightarrow> jsnum" where
  "normalized_channel f32 d k = store_f32 f32 (js_div255 (byte_at d k))"

text \<open>One round of the first loop: the three channel stores of pixel \<open>i\<close>.\<close>

definition image_step :: "(real \<Rightarrow> real) \<Rightarrow> byte list \<Rightarrow> nat \<Rightarrow> jsnum list \<Rightarrow> nat \<Rightarrow> jsnum list" where
  "image_step f32 d n a i =
     a[i := normalized_channel f32 d (i * 4),
       n + i := normalized_channel f32 d (i * 4 + 1),
       2 * n + i := normalized_channel f32 d (i * 4 + 2)]"

definition image_loop :: "(real \<Rightarrow> real) \<Rightarrow> byte list \<Rightarrow> nat \<Rightarrow> jsnum list" where
  "image_loop f32 d n = foldl (image_step f32 d n) (replicate (3 * n) (Fin 0)) [0..<n]"

text \<open>The nested mask loops: rows outside, columns inside.\<close>

definition mask_step :: "region \<Rightarrow> nat \<Rightarrow> nat \<Rightarrow> jsnum list \<Rightarrow> nat \<Rightarrow> jsnum list" where
  "mask_step reg w py a px =
     a[py * w + px := (if reg_y reg \<le> int py \<and> reg_x reg \<le> int px then Fin 1 else Fin 0)]"

definition mask_loop :: "region \<Rightarrow> nat \<Rightarrow> nat \<Rightarrow> jsnum list" where
  "mask_loop reg w h =
     foldl (\<lambda>a py. foldl (mask_step reg w py) a [0..<w]) (replicate (w * h) (Fin 0)) [0..<h]"

record tensors =
  imageTensor :: tensor
  maskTensor :: tensor

definition preprocessImage :: "(real \<Rightarrow> real) \<Rightarrow> config \<Rightarrow> imageData \<Rightarrow> tensors" where
  "preprocessImage f32 cfg imageData =
     (let w = img_width imageData; h = img_height imageData; d = img_data imageData;
          float32Data = image_loop f32 d (w * h);
          region = calculateWatermarkRegion cfg (int w) (int h) None;
          maskData = mask_loop region w h
      in \<lparr>imageTensor = \<lparr>t_type = ''float32'', t_data = float32Data, t_dims = [1, 3, h, w]\<rparr>,
          maskTensor = \<lparr>t_type = ''float32'', t_data = maskData, t_dims = [1, 1, h, w]\<rparr>\<rparr>)"

subsection \<open>\<open>postprocessImage\<close>\<close>

text \<open>
  The number of rounds of \<open>for (i = 0; i < Math.min(1000, data.length / 3); i++)\<close>:
  the quotient need not be an integer, so the loop runs up to its ceiling.
\<close>

definition sample_rounds :: "jsnum list \<Rightarrow> nat" where
  "sample_rounds d = min 1000 ((length d + 2) div 3)"

definition maxVal :: "jsnum list \<Rightarrow> jsnum" where
  "maxVal d = foldl (\<lambda>m i. js_max m (js_abs (num_at d i))) (Fin 0) [0..<sample_rounds d]"

definition isNormalized :: "jsnum list \<Rightarrow> bool" where
  "isNormalized d = js_le (maxVal d) (Fin 2)"

text \<open>
  One channel of one pixel: the optional scaling, then
  \<open>Math.min(255, Math.max(0, Math.round(v)))\<close> and the store into the clamped array.
\<close>

definition round_clamp :: "jsnum \<Rightarrow> byte" where
  "round_clamp v = toUint8Clamp (js_min (Fin 255) (js_max (Fin 0) (js_round v)))"

definition channel_byte :: "bool \<Rightarrow> jsnum \<Rightarrow> byte" where
  "channel_byte nrm v = round_clamp (if nrm then js_times255 v else v)"

definition pixel_step :: "jsnum list \<Rightarrow> nat \<Rightarrow> bool \<Rightarrow> byte list \<Rightarrow> nat \<Rightarrow> byte list" where
  "pixel_step d n nrm a i =
     a[i * 4 := channel_byte nrm (num_at d i),
       i * 4 + 1 := channel_byte nrm (num_at d (n + i)),
       i * 4 + 2 := channel_byte nrm (num_at d (2 * n + i)),
       i * 4 + 3 := 255]"

definition pixel_loop :: "jsnum list \<Rightarrow> nat \<Rightarrow> byte list" where
  "pixel_loop d n = foldl (pixel_step d n (isNormalized d)) (replicate (n * 4) 0) [0..<n]"

text \<open>
  The \<open>ImageData\<close> constructor refuses an empty array, that is a zero dimension;
  otherwise the array has the length the constructor expects.
\<close>

datatype dom_error = IndexSizeError | InvalidStateError

definition postprocessImage :: "tensor \<Rightarrow> nat \<Rightarrow> nat \<Rightarrow> dom_error + imageData" where
  "postprocessImage outputTensor w h =
     (let d = t_data outputTensor;
          rgbaData = pixel_loop d (w * h)
      in if w = 0 \<or> h = 0 then Inl InvalidStateError
         else Inr \<lparr>img_width = w, img_height = h, img_data = rgbaData\<rparr>)"

subsection \<open>The rounding of a \<open>Float32Array\<close> store\<close>

text \<open>
  What the round trip needs of the rounding: on \<open>[0, 1]\<close>, where the encoder's
  quotients lie, the stored value is within \<open>1 / 2 ^ 24\<close> of the exact one. Rounding to
  nearest in single precision meets the bound (its spacing there is at most
  \<open>1 / 2 ^ 24\<close>). \<open>grid24\<close>, rounding to the nearest multiple of \<open>1 / 2 ^ 24\<close>, is
  the instance of the worked examples.
\<close>

definition f32_accurate :: "(real \<Rightarrow> real) \<Rightarrow> bool" where
  "f32_accurate f32 \<longleftrightarrow> (\<forall>x. 0 \<le> x \<and> x \<le> 1 \<longrightarrow> \<bar>f32 x - x\<bar> \<le> 1 / 2 ^ 24)"

definition grid24 :: "real \<Rightarrow> real" where
  "grid24 x = of_int \<lfloor>x * 2 ^ 24 + 1 / 2\<rfloor> / 2 ^ 24"

subsection \<open>Tensors and an image for the worked examples\<close>

definition nan_tensor :: tensor where
  "nan_tensor = \<lparr>t_type = ''float32'', t_data = [NaN, Fin (- 3), PInf], t_dims = [1, 3, 1, 1]\<rparr>"

definition unit_tensor :: tensor where
  "unit_tensor = \<lparr>t_type = ''float32'',
     t_data = [Fin 2, Fin (1 / 2), Fin (3 / 10), Fin (- 1), Fin (1 / 2), Fin (3 / 10)],
     t_dims = [1, 3, 1, 2]\<rparr>"

definition raw_tensor :: tensor where
  "raw_tensor = \<lparr>t_type = ''float32'',
     t_data = [Fin 2, Fin (201 / 100), Fin (3 / 10), Fin (- 1), Fin 300, Fin (5 / 2)],
     t_dims = [1, 3, 1, 2]\<rparr>"

definition sample_image :: imageData where
  "sample_image = \<lparr>img_width = 2, img_height = 1, img_data = [200, 100, 50, 7, 0, 255, 1, 0]\<rparr>"

section \<open>Compositor (\<open>image-processor.js\<close>)\<close>

text \<open>
  A canvas or an \<open>ImageBitmap\<close>: the dimensions and the colour of every pixel, by
  column and row. Only the pixels inside the dimensions are part of the picture.
\<close>

type_synonym rgba = "byte \<times> byte \<times> byte \<times> byte"

record raster =
  ras_width :: nat
  ras_height :: nat
  ras_pixel :: "nat \<Rightarrow> nat \<Rightarrow> rgba"

text \<open>A fresh canvas is transparent black.\<close>

definition createCanvas :: "nat \<Rightarrow> nat \<Rightarrow> raster" where
  "createCanvas w h = \<lparr>ras_width = w, ras_height = h, ras_pixel = (\<lambda>px py. (0, 0, 0, 0))\<rparr>"

text \<open>
  \<open>ctx.drawImage(image, 0, 0)\<close> on a fresh canvas: the pixels of the image that fall
  on the canvas are stored as they are.
\<close>

definition drawImage :: "raster \<Rightarrow> raster \<Rightarrow> raster" where
  "drawImage canvas source =
     canvas\<lparr>ras_pixel := (\<lambda>px py.
       if px < ras_width canvas \<and> py < ras_height canvas
          \<and> px < ras_width source \<and> py < ras_height source
       then ras_pixel source px py else ras_pixel canvas px py)\<rparr>"

text \<open>The pixel of an \<open>ImageData\<close> at a column and a row.\<close>

definition data_byte :: "byte list \<Rightarrow> nat \<Rightarrow> byte" where
  "data_byte d k = (if k < length d then d ! k else 0)"

definition imageData_pixel :: "imageData \<Rightarrow> nat \<Rightarrow> nat \<Rightarrow> rgba" where
  "imageData_pixel im px py =
     (let k = (py * img_width im + px) * 4; d = img_data im
      in (data_byte d k, data_byte d (k + 1), data_byte d (k + 2), data_byte d (k + 3)))"

text \<open>\<open>ctx.putImageData(imageData, 0, 0)\<close>: a plain copy, without compositing.\<close>

definition putImageData :: "raster \<Rightarrow> imageData \<Rightarrow> raster" where
  "putImageData canvas im =
     canvas\<lparr>ras_pixel := (\<lambda>px py.
       if px < ras_width canvas \<and> py < ras_height canvas
          \<and> px < img_width im \<and> py < img_height im
       then imageData_pixel im px py else ras_pixel canvas px py)\<rparr>"

text \<open>
  The pixels of a rectangle; a negative width or height extends it to the left or
  upwards, as the canvas does.
\<close>

definition in_rect :: "region \<Rightarrow> int \<Rightarrow> int \<Rightarrow> bool" where
  "in_rect r px py \<longleftrightarrow>
     min (reg_x r) (reg_x r + reg_width r) \<le> px \<and> px < max (reg_x r) (reg_x r + reg_width r)
   \<and> min (reg_y r) (reg_y r + reg_height r) \<le> py \<and> py < max (reg_y r) (reg_y r + reg_height r)"

text \<open>
  \<open>ctx.drawImage(image, sx, sy, sw, sh, dx, dy, dw, dh)\<close> with a canvas as the source. The
  call is refused when the source canvas has no pixels and draws nothing when the source
  rectangle is empty. Otherwise the pixels of the canvas inside the destination rectangle,
  and only they, are painted. The resampling and blending of the browser is the parameter
  \<open>sample\<close>: the new colour of a destination pixel, from the source image, the two
  rectangles, the pixel's place and its old colour.
\<close>

type_synonym sampler = "raster \<Rightarrow> region \<Rightarrow> region \<Rightarrow> nat \<Rightarrow> nat \<Rightarrow> rgba \<Rightarrow> rgba"

definition drawImageScaled :: "sampler \<Rightarrow> raster \<Rightarrow> raster \<Rightarrow> region \<Rightarrow> region \<Rightarrow> dom_error + raster" where
  "drawImageScaled sample canvas source src dst =
     (if ras_width source = 0 \<or> ras_height source = 0 then Inl InvalidStateError
      else if reg_width src = 0 \<or> reg_height src = 0 then Inr canvas
      else Inr (canvas\<lparr>ras_pixel := (\<lambda>px py.
        if px < ras_width canvas \<and> py < ras_height canvas \<and> in_rect dst (int px) (int py)
        then sample source src dst px py (ras_pixel canvas px py)
        else ras_pixel canvas px py)\<rparr>))"

text \<open>
  \<open>composeFinalImage\<close> up to the final canvas, and then with the encoding
  \<open>toDataURL\<close> of the canvas, a parameter as well.
\<close>

definition composeCanvas :: "sampler \<Rightarrow> config \<Rightarrow> raster \<Rightarrow> imageData \<Rightarrow> dom_error + raster" where
  "composeCanvas sample cfg originalBitmap processedImageData =
     (let origWidth = ras_width originalBitmap; origHeight = ras_height originalBitmap;
          processedSize = INPUT_SIZE cfg;
          finalCanvas = drawImage (createCanvas origWidth origHeight) originalBitmap;
          tempCanvas = putImageData (createCanvas processedSize processedSize) processedImageData;
          origRegion = calculateWatermarkRegion cfg (int origWidth) (int origHeight)
                         (Some (EXTENDED_RATIO cfg));
          processedRegion = calculateWatermarkRegion cfg (int processedSize) (int processedSize)
                              (Some (EXTENDED_RATIO cfg))
      in drawImageScaled sample finalCanvas tempCanvas processedRegion origRegion)"

definition composeFinalImage ::
  "(string \<Rightarrow> real \<Rightarrow> raster \<Rightarrow> string) \<Rightarrow> sampler \<Rightarrow> config \<Rightarrow> raster \<Rightarrow> imageData
     \<Rightarrow> dom_error + string" where
  "composeFinalImage toDataURL sample cfg originalBitmap processedImageData =
     (case composeCanvas sample cfg originalBitmap processedImageData of
        Inl e \<Rightarrow> Inl e
      | Inr finalCanvas \<Rightarrow> Inr (toDataURL (OUTPUT_FORMAT cfg) (OUTPUT_QUALITY cfg) finalCanvas))"



subsection \<open>A sampler and images for the worked examples\<close>




section \<open>Model manager (\<open>model-manager.js\<close>)\<close>

text \<open>
  The fields of the \<open>ModelManager\<close> singleton. The session type is a parameter; the
  promise held in \<open>initializationPromise\<close> is named by its number.
\<close>

record 's manager =
  session :: "'s option"
  modelBuffer :: "byte list option"
  isInitialized :: bool
  initializationPromise :: "nat option"

text \<open>The constructor.\<close>

definition new_manager :: "'s manager" where
  "new_manager = \<lparr>session = None, modelBuffer = None, isInitialized = False,
     initializationPromise = None\<rparr>"

text \<open>
  JavaScript runs one piece of code at a time, and an \<open>async\<close> body gives way at each
  \<open>await\<close>. The world around the manager therefore keeps, for every promise of an
  initialisation attempt, its outcome so far and, while the body is suspended, the
  \<open>await\<close> it is suspended at together with its local variables:
  \<^item> \<open>AwaitFetch\<close>: at \<open>await fetch(url)\<close>;
  \<^item> \<open>AwaitRead\<close>: at \<open>await reader.read()\<close>, with \<open>contentLength\<close>,
    \<open>receivedLength\<close> and the chunks received;
  \<^item> \<open>AwaitCreate\<close>: at \<open>await ort.InferenceSession.create(...)\<close>.
  The first two are the awaits of \<open>fetchModelWithProgress\<close>, whose body runs as part
  of the attempt that awaits it.
  The flag of a suspended body tells whether the caller passed an \<open>onProgress\<close> callback.
  The world also counts the calls of \<open>fetch\<close> and of \<open>InferenceSession.create\<close>,
  records the progress reports, and counts the bodies of \<open>dispose\<close> that are suspended
  at \<open>await this.session.release()\<close>.
\<close>

datatype outcome = Pending | Fulfilled | Rejected string

datatype task =
    AwaitFetch bool
  | AwaitRead bool nat nat "byte list"
  | AwaitCreate bool

record 's world =
  mgr :: "'s manager"
  promises :: "outcome list"
  tasks :: "nat \<Rightarrow> task option"
  releasing :: nat
  fetches :: nat
  creates :: nat
  progress :: "(real \<times> nat option) list"
  ortLoaded :: bool

definition new_world :: "bool \<Rightarrow> 's world" where
  "new_world ort = \<lparr>mgr = new_manager, promises = [], tasks = (\<lambda>p. None), releasing = 0,
     fetches = 0, creates = 0, progress = [], ortLoaded = ort\<rparr>"

subsection \<open>\<open>initialize\<close>\<close>

definition report :: "bool \<Rightarrow> real \<times> nat option \<Rightarrow> 's world \<Rightarrow> 's world" where
  "report onProgress e w = (if onProgress then w\<lparr>progress := progress w @ [e]\<rparr> else w)"

text \<open>The percentage reported for a chunk, through both callbacks.\<close>

definition download_progress :: "config \<Rightarrow> nat \<Rightarrow> nat \<Rightarrow> real" where
  "download_progress cfg receivedLength contentLength =
     (let percent = real_of_int \<lfloor>real receivedLength / real contentLength * 100 + 1 / 2\<rfloor>;
          startPercent = MODEL_DOWNLOAD_START cfg;
          endPercent = MODEL_DOWNLOAD_END cfg;
          progressPercent = startPercent + percent / 100 * (endPercent - startPercent)
      in real_of_int \<lfloor>progressPercent + 1 / 2\<rfloor>)"

definition load_failed :: "config \<Rightarrow> string \<Rightarrow> string" where
  "load_failed cfg message = MODEL_LOAD_FAILED cfg @ '': '' @ message"

text \<open>
  The \<open>catch\<close> block of attempt \<open>p\<close>: the handle is cleared and the promise of the
  attempt is rejected with the wrapped message.
\<close>

definition catch_error :: "config \<Rightarrow> nat \<Rightarrow> string \<Rightarrow> 's world \<Rightarrow> 's world" where
  "catch_error cfg p message w =
     w\<lparr>mgr := (mgr w)\<lparr>initializationPromise := None\<rparr>,
       promises := (promises w)[p := Rejected (load_failed cfg message)],
       tasks := (tasks w)(p := None)\<rparr>"

text \<open>The progress report before the session is created, and the call that creates it.\<close>

definition begin_create :: "config \<Rightarrow> nat \<Rightarrow> bool \<Rightarrow> 's world \<Rightarrow> 's world" where
  "begin_create cfg p onProgress w =
     (let w1 = report onProgress (MODEL_INIT cfg, None) w
      in w1\<lparr>creates := creates w1 + 1, tasks := (tasks w1)(p \<mapsto> AwaitCreate onProgress)\<rparr>)"

text \<open>
  The body of the attempt from its start to its first \<open>await\<close>:
  \<open>initializeOnnxRuntime\<close> throws when \<open>ort\<close> is not defined; otherwise the model is
  fetched unless its bytes are cached.
\<close>

definition start_attempt :: "config \<Rightarrow> nat \<Rightarrow> bool \<Rightarrow> 's world \<Rightarrow> 's world" where
  "start_attempt cfg p onProgress w =
     (if \<not> ortLoaded w then catch_error cfg p ''ONNX Runtime not loaded'' w
      else case modelBuffer (mgr w) of
             None \<Rightarrow> w\<lparr>fetches := fetches w + 1, tasks := (tasks w)(p \<mapsto> AwaitFetch onProgress)\<rparr>
           | Some b \<Rightarrow> begin_create cfg p onProgress w)"

text \<open>
  What a call of \<open>initialize\<close> resolves with: at once when the manager is initialised,
  otherwise with the outcome of the attempt whose promise it returns.
\<close>

datatype handle = Immediate | Attempt nat

text \<open>
  \<open>initialize\<close>. The body of a new attempt runs to its first \<open>await\<close> before its
  promise is assigned to \<open>initializationPromise\<close>.
\<close>

definition initialize :: "config \<Rightarrow> bool \<Rightarrow> 's world \<Rightarrow> 's world \<times> handle" where
  "initialize cfg onProgress w =
     (if isInitialized (mgr w) then (w, Immediate)
      else case initializationPromise (mgr w) of
             Some p \<Rightarrow> (w, Attempt p)
           | None \<Rightarrow>
               (let p = length (promises w);
                    w1 = start_attempt cfg p onProgress (w\<lparr>promises := promises w @ [Pending]\<rparr>);
                    w2 = w1\<lparr>mgr := (mgr w1)\<lparr>initializationPromise := Some p\<rparr>\<rparr>
                in (w2, Attempt p)))"

text \<open>
  What the awaited operations answer: \<open>fetch\<close> rejects or gives a response (its
  \<open>ok\<close> flag, its status text and its \<open>Content-Length\<close>, 0 when the header is missing
  or not a number; the response carries a body); a read fails, gives a chunk or ends the
  stream; the creation of the session fails or gives the session.
\<close>

datatype 's reply =
    FetchFailed string
  | Response bool string nat
  | ReadFailed string
  | Chunk "byte list"
  | Done
  | CreateFailed string
  | Created 's

text \<open>
  The suspended body of attempt \<open>p\<close> goes on with the answer, up to its next
  \<open>await\<close> or its end. An answer to another \<open>await\<close> than the one the body is at does
  not occur.
\<close>

fun resume :: "config \<Rightarrow> nat \<Rightarrow> task \<Rightarrow> 's reply \<Rightarrow> 's world \<Rightarrow> 's world" where
  "resume cfg p (AwaitFetch cb) (FetchFailed message) w = catch_error cfg p message w"
| "resume cfg p (AwaitFetch cb) (Response ok statusText contentLength) w =
     (if \<not> ok then catch_error cfg p (''Failed to fetch model: '' @ statusText) w
      else w\<lparr>tasks := (tasks w)(p \<mapsto> AwaitRead cb contentLength 0 [])\<rparr>)"
| "resume cfg p (AwaitRead cb contentLength receivedLength chunks) (ReadFailed message) w =
     catch_error cfg p message w"
| "resume cfg p (AwaitRead cb contentLength receivedLength chunks) (Chunk v) w =
     (let received = receivedLength + length v;
          w1 = (if 0 < contentLength
                then report cb (download_progress cfg received contentLength, Some received) w
                else w)
      in w1\<lparr>tasks := (tasks w1)(p \<mapsto> AwaitRead cb contentLength received (chunks @ v))\<rparr>)"
| "resume cfg p (AwaitRead cb contentLength receivedLength chunks) Done w =
     begin_create cfg p cb (w\<lparr>mgr := (mgr w)\<lparr>modelBuffer := Some chunks\<rparr>\<rparr>)"
| "resume cfg p (AwaitCreate cb) (CreateFailed message) w = catch_error cfg p message w"
| "resume cfg p (AwaitCreate cb) (Created s) w =
     (let w1 = w\<lparr>mgr := (mgr w)\<lparr>session := Some s, isInitialized := True\<rparr>\<rparr>;
          w2 = report cb (MODEL_READY cfg, None) w1
      in w2\<lparr>promises := (promises w2)[p := Fulfilled], tasks := (tasks w2)(p := None)\<rparr>)"
| "resume cfg p t r w = w"

definition settle :: "config \<Rightarrow> nat \<Rightarrow> 's reply \<Rightarrow> 's world \<Rightarrow> 's world" where
  "settle cfg p r w = (case tasks w p of None \<Rightarrow> w | Some t \<Rightarrow> resume cfg p t r w)"

subsection \<open>\<open>runInference\<close>\<close>

text \<open>
  The engine is the parameter \<open>run\<close>: from a session and the feeds to an error message
  or the named outputs, in the order of \<open>Object.keys\<close>. The result is an error message
  or the first output, \<open>undefined\<close> (\<open>None\<close>) when there is none.
\<close>

definition not_initialized :: string where
  "not_initialized = ''Model not initialized. Call initialize() first.''"

definition runInference ::
  "('s \<Rightarrow> 'f \<Rightarrow> string + (string \<times> 't) list) \<Rightarrow> 's manager \<Rightarrow> 'f \<Rightarrow> string + 't option" where
  "runInference run m feeds =
     (if \<not> isInitialized m then Inl not_initialized
      else case session m of
             None \<Rightarrow> Inl not_initialized
           | Some s \<Rightarrow>
               (case run s feeds of
                  Inl message \<Rightarrow> Inl (''Inference failed: '' @ message)
                | Inr results \<Rightarrow>
                    (case results of [] \<Rightarrow> Inr None | (outputName, t) # _ \<Rightarrow> Inr (Some t))))"

subsection \<open>\<open>dispose\<close>, \<open>clearCache\<close> and \<open>getInfo\<close>\<close>

text \<open>
  \<open>dispose\<close> is \<open>async\<close>: with a session, the call runs up to
  \<open>await this.session.release()\<close> and the rest of the body runs later, when the release
  has settled (the flag tells whether it succeeded); without a session the whole body runs
  in the call.
\<close>

definition dispose :: "'s world \<Rightarrow> 's world" where
  "dispose w =
     (case session (mgr w) of
        Some s \<Rightarrow> w\<lparr>releasing := releasing w + 1\<rparr>
      | None \<Rightarrow> w\<lparr>mgr := (mgr w)\<lparr>isInitialized := False, initializationPromise := None\<rparr>\<rparr>)"

definition dispose_resume :: "bool \<Rightarrow> 's world \<Rightarrow> 's world" where
  "dispose_resume released w =
     (if releasing w = 0 then w
      else if released
      then w\<lparr>releasing := releasing w - 1,
             mgr := (mgr w)\<lparr>session := None, isInitialized := False,
                            initializationPromise := None\<rparr>\<rparr>
      else w\<lparr>releasing := releasing w - 1\<rparr>)"

text \<open>\<open>clearCache\<close> calls \<open>dispose\<close> without awaiting it and then drops the bytes.\<close>

definition clearCache :: "'s world \<Rightarrow> 's world" where
  "clearCache w = (let w1 = dispose w in w1\<lparr>mgr := (mgr w1)\<lparr>modelBuffer := None\<rparr>\<rparr>)"

record info =
  info_isInitialized :: bool
  hasModelBuffer :: bool
  modelPath :: string
  inputSize :: nat

definition getInfo :: "config \<Rightarrow> 's manager \<Rightarrow> info" where
  "getInfo cfg m = \<lparr>info_isInitialized = isInitialized m, hasModelBuffer = (modelBuffer m \<noteq> None),
     modelPath = MODEL_PATH cfg, inputSize = INPUT_SIZE cfg\<rparr>"

subsection \<open>Runs\<close>

text \<open>What can happen to the manager, one piece of code at a time.\<close>

datatype 's event =
    Initialize bool
  | Settle nat "'s reply"
  | Dispose
  | Released bool
  | ClearCache

fun step :: "config \<Rightarrow> 's world \<Rightarrow> 's event \<Rightarrow> 's world" where
  "step cfg w (Initialize onProgress) = fst (initialize cfg onProgress w)"
| "step cfg w (Settle p r) = settle cfg p r w"
| "step cfg w Dispose = dispose w"
| "step cfg w (Released ok) = dispose_resume ok w"
| "step cfg w ClearCache = clearCache w"

definition run_events :: "config \<Rightarrow> 's world \<Rightarrow> 's event list \<Rightarrow> 's world" where
  "run_events cfg w es = foldl (step cfg) w es"

text \<open>Several calls of \<open>initialize\<close> in a row, with the handles they return.\<close>

fun initialize_all :: "config \<Rightarrow> bool list \<Rightarrow> 's world \<Rightarrow> 's world \<times> handle list" where
  "initialize_all cfg [] w = (w, [])"
| "initialize_all cfg (cb # cbs) w =
     (let (w1, h) = initialize cfg cb w; (w2, hs) = initialize_all cfg cbs w1 in (w2, h # hs))"

text \<open>The outcome a caller of \<open>initialize\<close> observes through its handle.\<close>

fun observed :: "'s world \<Rightarrow> handle \<Rightarrow> outcome" where
  "observed w Immediate = Fulfilled"
| "observed w (Attempt p) = (if p < length (promises w) then promises w ! p else Pending)"

subsection \<open>The single-flight invariant\<close>

text \<open>
  The events that tear nothing down: calls of \<open>initialize\<close> and the answers to the
  awaits of the attempts.
\<close>

fun no_teardown :: "'s event \<Rightarrow> bool" where
  "no_teardown (Initialize cb) = True"
| "no_teardown (Settle p r) = True"
| "no_teardown e = False"

text \<open>The awaits of an attempt that come before the creation of the session.\<close>

fun before_create :: "task \<Rightarrow> bool" where
  "before_create (AwaitCreate cb) = False"
| "before_create t = True"

text \<open>
  Every suspended body belongs to the attempt held in \<open>initializationPromise\<close>, whose
  promise is pending, and the manager is not initialised; every pending promise has its
  suspended body; no more fetches and no more creations have been started than attempts,
  and an attempt that is still before its creation has not used its creation yet.
\<close>

definition single_flight_inv :: "'s world \<Rightarrow> bool" where
  "single_flight_inv w \<longleftrightarrow>
     (\<forall>q t. tasks w q = Some t \<longrightarrow>
        initializationPromise (mgr w) = Some q \<and> \<not> isInitialized (mgr w)
        \<and> q < length (promises w) \<and> promises w ! q = Pending
        \<and> (before_create t \<longrightarrow> creates w < length (promises w)))
   \<and> (\<forall>q<length (promises w). promises w ! q = Pending \<longrightarrow> tasks w q \<noteq> None)
   \<and> fetches w \<le> length (promises w) \<and> creates w \<le> length (promises w)"

subsection \<open>Failures and readiness\<close>

text \<open>
  The message of the error that the suspended body of an attempt catches, when the answer
  to its \<open>await\<close> is a failure: a rejected fetch, a response that is not \<open>ok\<close>, a
  failed read or a failed creation of the session.
\<close>

fun failure_of :: "task \<Rightarrow> 's reply \<Rightarrow> string option" where
  "failure_of (AwaitFetch cb) (FetchFailed message) = Some message"
| "failure_of (AwaitFetch cb) (Response ok statusText contentLength) =
     (if ok then None else Some (''Failed to fetch model: '' @ statusText))"
| "failure_of (AwaitRead cb contentLength receivedLength chunks) (ReadFailed message) = Some message"
| "failure_of (AwaitCreate cb) (CreateFailed message) = Some message"
| "failure_of t r = None"

text \<open>The state \<open>Ready\<close>: initialised, with a session.\<close>

definition ready :: "'s manager \<Rightarrow> bool" where
  "ready m \<longleftrightarrow> isInitialized m \<and> session m \<noteq> None"

subsection \<open>Runs and an engine for the worked examples\<close>

definition loading_run :: "nat event list" where
  "loading_run = [Initialize True, Settle 0 (Response True ''OK'' 3), Initialize False,
     Settle 0 (Chunk [1, 2, 3])]"

definition failing_run :: "nat event list" where
  "failing_run = [Initialize False, Settle 0 (Response True ''OK'' 3), Settle 0 (Chunk [1, 2, 3]),
     Settle 0 Done, Settle 0 (CreateFailed ''bad model'')]"

definition ready_run :: "nat event list" where
  "ready_run = [Initialize False, Settle 0 (Response True ''OK'' 3), Settle 0 (Chunk [1, 2, 3]),
     Settle 0 Done, Settle 0 (Created 7)]"

definition ready_world :: "nat world" where
  "ready_world = run_events sample_config (new_world True) ready_run"

definition sample_engine :: "nat \<Rightarrow> nat \<Rightarrow> string + (string \<times> nat) list" where
  "sample_engine s feeds = (if feeds = 0 then Inl ''empty feeds''
     else Inr [(''output'', feeds + s), (''aux'', 0)])"

section \<open>Properties of the region calculator\<close>


lemma calculateWatermarkRegion_default:
  "ratio = None \<or> ratio = Some 0 \<Longrightarrow> calculateWatermarkRegion cfg w h ratio =
     \<lparr>reg_x = w - \<lfloor>of_int w * WIDTH_RATIO cfg\<rfloor>, reg_y = h - \<lfloor>of_int h * HEIGHT_RATIO cfg\<rfloor>,
      reg_width = \<lfloor>of_int w * WIDTH_RATIO cfg\<rfloor>, reg_height = \<lfloor>of_int h * HEIGHT_RATIO cfg\<rfloor>\<rparr>"
  by (auto simp: calculateWatermarkRegion_def Let_def)

lemma calculateWatermarkRegion_anchor:
  "reg_x (calculateWatermarkRegion cfg w h ratio) + reg_width (calculateWatermarkRegion cfg w h ratio) = w"
  "reg_y (calculateWatermarkRegion cfg w h ratio) + reg_height (calculateWatermarkRegion cfg w h ratio) = h"
  by (simp_all add: calculateWatermarkRegion_def Let_def)



text \<open>
  C9. A ratio argument of 0 (or \<open>null\<close>, the value of an omitted argument) does not give
  the empty region \<open>floor (width * 0)\<close>: the falsy ratio is replaced by the configured
  constants, \<open>WIDTH_RATIO\<close> for the width and \<open>HEIGHT_RATIO\<close> for the height, which
  need not be equal. The result is the region of the call without a ratio, and it is not
  empty as soon as each dimension times its constant reaches one pixel.
\<close>

theorem falsy_ratio_uses_defaults:
  "calculateWatermarkRegion cfg w h (Some 0) = calculateWatermarkRegion cfg w h None
   \<and> calculateWatermarkRegion cfg w h None =
       \<lparr>reg_x = w - \<lfloor>of_int w * WIDTH_RATIO cfg\<rfloor>, reg_y = h - \<lfloor>of_int h * HEIGHT_RATIO cfg\<rfloor>,
        reg_width = \<lfloor>of_int w * WIDTH_RATIO cfg\<rfloor>, reg_height = \<lfloor>of_int h * HEIGHT_RATIO cfg\<rfloor>\<rparr>
   \<and> (1 \<le> of_int w * WIDTH_RATIO cfg \<and> 1 \<le> of_int h * HEIGHT_RATIO cfg \<longrightarrow>
        0 < reg_width (calculateWatermarkRegion cfg w h (Some 0))
      \<and> 0 < reg_height (calculateWatermarkRegion cfg w h (Some 0)))"
  by (simp add: calculateWatermarkRegion_default)

theorem falsy_ratio_uses_defaults_witness:
  "(1::real) \<le> of_int 100 * WIDTH_RATIO sample_config
   \<and> (1::real) \<le> of_int 100 * HEIGHT_RATIO sample_config
   \<and> calculateWatermarkRegion sample_config 100 100 (Some 0)
       = \<lparr>reg_x = 75, reg_y = 90, reg_width = 25, reg_height = 10\<rparr>
   \<and> 0 < reg_width (calculateWatermarkRegion sample_config 100 100 (Some 0))
   \<and> 0 < reg_height (calculateWatermarkRegion sample_config 100 100 (Some 0))"
  using falsy_ratio_uses_defaults [of sample_config 100 100]
  by (simp add: sample_config_def)

section \<open>Properties of the tensor codec\<close>

subsection \<open>The loops, index by index\<close>

lemma length_pixel_step [simp]: "length (pixel_step d n b a i) = length a"
  by (simp add: pixel_step_def)

lemma length_pixel_fold [simp]: "length (foldl (pixel_step d n b) a [0..<m]) = length a"
  by (induction m) simp_all

lemma pixel_step_nth:
  "i * 4 + 3 < length a \<Longrightarrow> pixel_step d n b a i ! k =
     (if k = i * 4 + 3 then 255
      else if k = i * 4 + 2 then channel_byte b (num_at d (2 * n + i))
      else if k = i * 4 + 1 then channel_byte b (num_at d (n + i))
      else if k = i * 4 then channel_byte b (num_at d i)
      else a ! k)"
  by (simp add: pixel_step_def nth_list_update)

lemma image_step_nth:
  "2 * n + i < length a \<Longrightarrow> image_step f d n a i ! k =
     (if k = 2 * n + i then normalized_channel f d (i * 4 + 2)
      else if k = n + i then normalized_channel f d (i * 4 + 1)
      else if k = i then normalized_channel f d (i * 4)
      else a ! k)"
  by (simp add: image_step_def nth_list_update)

lemma pixel_fold_nth:
  assumes "m * 4 \<le> length a" and "i < m"
  shows "foldl (pixel_step d n b) a [0..<m] ! (i * 4) = channel_byte b (num_at d i)"
    and "foldl (pixel_step d n b) a [0..<m] ! (i * 4 + 1) = channel_byte b (num_at d (n + i))"
    and "foldl (pixel_step d n b) a [0..<m] ! (i * 4 + 2) = channel_byte b (num_at d (2 * n + i))"
    and "foldl (pixel_step d n b) a [0..<m] ! (i * 4 + 3) = 255"
  using assms
proof (induction m)
  case 0
  {
    case 1 then show ?case by simp
  next
    case 2 then show ?case by simp
  next
    case 3 then show ?case by simp
  next
    case 4 then show ?case by simp
  }
next
  case (Suc m)
  {
    case 1 then show ?case using Suc.IH(1) by (cases "i = m") (simp_all add: pixel_step_nth)
  next
    case 2 then show ?case using Suc.IH(2) by (cases "i = m") (simp_all add: pixel_step_nth)
  next
    case 3 then show ?case using Suc.IH(3) by (cases "i = m") (simp_all add: pixel_step_nth)
  next
    case 4 then show ?case using Suc.IH(4) by (cases "i = m") (simp_all add: pixel_step_nth)
  }
qed

lemma length_image_step [simp]: "length (image_step f d n a i) = length a"
  by (simp add: image_step_def)

lemma length_image_fold [simp]: "length (foldl (image_step f d n) a [0..<m]) = length a"
  by (induction m) simp_all

lemma image_fold_nth:
  assumes "3 * n \<le> length a" and "m \<le> n" and "i < m"
  shows "foldl (image_step f d n) a [0..<m] ! i = normalized_channel f d (i * 4)"
    and "foldl (image_step f d n) a [0..<m] ! (n + i) = normalized_channel f d (i * 4 + 1)"
    and "foldl (image_step f d n) a [0..<m] ! (2 * n + i) = normalized_channel f d (i * 4 + 2)"
  using assms
proof (induction m)
  case 0
  {
    case 1 then show ?case by simp
  next
    case 2 then show ?case by simp
  next
    case 3 then show ?case by simp
  }
next
  case (Suc m)
  {
    case 1 then show ?case using Suc.IH(1) by (cases "i = m") (simp_all add: image_step_nth)
  next
    case 2 then show ?case using Suc.IH(2) by (cases "i = m") (simp_all add: image_step_nth)
  next
    case 3 then show ?case using Suc.IH(3) by (cases "i = m") (simp_all add: image_step_nth)
  }
qed

lemma js_le_max_iff: "js_le (js_max a b) t \<longleftrightarrow> js_le a t \<and> js_le b t"
  by (cases a; cases b; cases t) auto

lemma js_le_fold_max:
  "js_le (foldl (\<lambda>m i. js_max m (js_abs (g i))) m0 [0..<k]) t
     \<longleftrightarrow> js_le m0 t \<and> (\<forall>i<k. js_le (js_abs (g i)) t)"
  by (induction k) (auto simp: js_le_max_iff less_Suc_eq)

lemma round_half_even_bounds: "\<lfloor>x\<rfloor> \<le> round_half_even x \<and> round_half_even x \<le> \<lfloor>x\<rfloor> + 1"
  by (simp add: round_half_even_def Let_def)

lemma round_half_even_of_nat [simp]: "round_half_even (real b) = int b"
  by (simp add: round_half_even_def)

lemma toUint8Clamp_le: "toUint8Clamp v \<le> 255"
proof (cases v)
  case (Fin x)
  show ?thesis
  proof (cases "x \<le> 0 \<or> 255 \<le> x")
    case True
    with Fin show ?thesis by auto
  next
    case False
    then have "\<lfloor>x\<rfloor> \<le> 254" by (simp add: floor_le_iff)
    with round_half_even_bounds [of x] have "round_half_even x \<le> 255" by linarith
    with Fin False show ?thesis by simp
  qed
qed simp_all

lemma channel_byte_le: "channel_byte b v \<le> 255"
  by (simp add: channel_byte_def round_clamp_def toUint8Clamp_le)

lemma sample_rounds_planes: "length d = 3 * n \<Longrightarrow> sample_rounds d = min 1000 n"
  by (simp add: sample_rounds_def)

lemma isNormalized_iff:
  "isNormalized d \<longleftrightarrow> (\<forall>i<sample_rounds d. js_le (js_abs (num_at d i)) (Fin 2))"
  by (simp add: isNormalized_def maxVal_def js_le_fold_max)

lemma isNormalized_sample:
  assumes "length d = 3 * n"
  shows "isNormalized d \<longleftrightarrow> (\<forall>v\<in>set (take (min 1000 n) d). js_le (js_abs v) (Fin 2))"
proof -
  have len: "min 1000 n \<le> length d" using assms by simp
  have "(\<forall>v\<in>set (take (min 1000 n) d). js_le (js_abs v) (Fin 2))
      \<longleftrightarrow> (\<forall>i<min 1000 n. js_le (js_abs (take (min 1000 n) d ! i)) (Fin 2))"
    using len by (simp add: all_set_conv_all_nth)
  also have "\<dots> \<longleftrightarrow> (\<forall>i<min 1000 n. js_le (js_abs (num_at d i)) (Fin 2))"
    using len by (auto simp: num_at_def)
  finally show ?thesis
    by (simp add: isNormalized_iff sample_rounds_planes [OF assms])
qed

lemma pixel_loop_length [simp]: "length (pixel_loop d n) = n * 4"
  by (simp add: pixel_loop_def)

lemma pixel_loop_nth:
  assumes "i < n"
  shows "pixel_loop d n ! (i * 4) = channel_byte (isNormalized d) (num_at d i)"
    and "pixel_loop d n ! (i * 4 + 1) = channel_byte (isNormalized d) (num_at d (n + i))"
    and "pixel_loop d n ! (i * 4 + 2) = channel_byte (isNormalized d) (num_at d (2 * n + i))"
    and "pixel_loop d n ! (i * 4 + 3) = 255"
proof -
  have len: "n * 4 \<le> length (replicate (n * 4) (0::byte))" by simp
  note f = pixel_fold_nth [OF len assms, of d n "isNormalized d"]
  show "pixel_loop d n ! (i * 4) = channel_byte (isNormalized d) (num_at d i)"
    unfolding pixel_loop_def by (rule f)
  show "pixel_loop d n ! (i * 4 + 1) = channel_byte (isNormalized d) (num_at d (n + i))"
    unfolding pixel_loop_def by (rule f)
  show "pixel_loop d n ! (i * 4 + 2) = channel_byte (isNormalized d) (num_at d (2 * n + i))"
    unfolding pixel_loop_def by (rule f)
  show "pixel_loop d n ! (i * 4 + 3) = 255"
    unfolding pixel_loop_def by (rule f)
qed

lemma pixel_loop_byte:
  assumes "k < n * 4"
  shows "pixel_loop d n ! k \<le> 255"
proof -
  define i where "i = k div 4"
  have i: "i < n" using assms by (simp add: i_def less_mult_imp_div_less)
  have "k = i * 4 \<or> k = i * 4 + 1 \<or> k = i * 4 + 2 \<or> k = i * 4 + 3"
    unfolding i_def by presburger
  then show ?thesis
    using pixel_loop_nth [OF i, of d] by (auto simp: channel_byte_le)
qed

subsection \<open>The decoder\<close>

lemma postprocessImage_Inr:
  "0 < w \<Longrightarrow> 0 < h \<Longrightarrow> postprocessImage out w h =
     Inr \<lparr>img_width = w, img_height = h, img_data = pixel_loop (t_data out) (w * h)\<rparr>"
  by (simp add: postprocessImage_def)

lemma js_lt_not_le: "js_lt t a \<Longrightarrow> \<not> js_le a t"
  by (cases a; cases t) auto

lemma num_at_planes:
  assumes "length d = 3 * n" and "i < n"
  shows "num_at d i = d ! i" and "num_at d (n + i) = d ! (n + i)"
    and "num_at d (2 * n + i) = d ! (2 * n + i)"
  using assms by (simp_all add: num_at_def)

text \<open>
  C10. For an output tensor whose data has length \<open>3 * width * height\<close>, whatever its
  values (\<open>NaN\<close>, infinite, negative or above 255 included), \<open>postprocessImage\<close>
  returns a well-formed buffer of \<open>4 * width * height\<close> bytes: every byte is at most
  255 and every alpha byte is 255. The dimensions are positive, as the \<open>ImageData\<close>
  constructor demands.
\<close>

theorem postprocess_well_formed:
  assumes "0 < w" and "0 < h" and "length (t_data out) = 3 * (w * h)"
  shows "\<exists>img. postprocessImage out w h = Inr img
           \<and> img_width img = w \<and> img_height img = h
           \<and> length (img_data img) = 4 * (w * h)
           \<and> (\<forall>k<4 * (w * h). img_data img ! k \<le> 255)
           \<and> (\<forall>i<w * h. img_data img ! (i * 4 + 3) = 255)"
  using assms(1,2)
  by (simp add: postprocessImage_Inr pixel_loop_byte pixel_loop_nth(4) mult.commute)

theorem postprocess_well_formed_witness:
  "(0::nat) < 1 \<and> length (t_data nan_tensor) = 3 * (1 * 1)
   \<and> postprocessImage nan_tensor 1 1
       = Inr \<lparr>img_width = 1, img_height = 1, img_data = [0, 0, 255, 255]\<rparr>
   \<and> (\<exists>img. postprocessImage nan_tensor 1 1 = Inr img
           \<and> (\<forall>k<4. img_data img ! k \<le> 255) \<and> img_data img ! 3 = 255)"
proof -
  have h: "(0::nat) < 1" "length (t_data nan_tensor) = 3 * (1 * 1)"
    by (simp_all add: nan_tensor_def)
  have v: "postprocessImage nan_tensor 1 1
       = Inr \<lparr>img_width = 1, img_height = 1, img_data = [0, 0, 255, 255]\<rparr>"
    by code_simp
  from postprocess_well_formed [OF h(1) h(1) h(2)] h v show ?thesis
    by auto
qed

text \<open>
  C5. \<open>postprocessImage\<close> decides the scaling on the first \<open>min (1000, width * height)\<close>
  values of the tensor, the head of the first plane. When the absolute value of each of
  them is at most 2 (2 itself included), so that their maximum is, every channel value is
  multiplied by 255 before it is rounded and clamped; when one of them is above 2, so
  that the maximum is, the values are rounded and clamped as they are.
\<close>

theorem range_auto_detection:
  assumes "0 < w" and "0 < h" and "length (t_data out) = 3 * (w * h)"
  shows "\<exists>img. postprocessImage out w h = Inr img
     \<and> ((\<forall>v\<in>set (take (min 1000 (w * h)) (t_data out)). js_le (js_abs v) (Fin 2)) \<longrightarrow>
         (\<forall>i<w * h.
            img_data img ! (i * 4) = round_clamp (js_times255 (t_data out ! i))
          \<and> img_data img ! (i * 4 + 1) = round_clamp (js_times255 (t_data out ! (w * h + i)))
          \<and> img_data img ! (i * 4 + 2) = round_clamp (js_times255 (t_data out ! (2 * (w * h) + i)))))
     \<and> ((\<exists>v\<in>set (take (min 1000 (w * h)) (t_data out)). js_lt (Fin 2) (js_abs v)) \<longrightarrow>
         (\<forall>i<w * h.
            img_data img ! (i * 4) = round_clamp (t_data out ! i)
          \<and> img_data img ! (i * 4 + 1) = round_clamp (t_data out ! (w * h + i))
          \<and> img_data img ! (i * 4 + 2) = round_clamp (t_data out ! (2 * (w * h) + i))))"
proof -
  let ?d = "t_data out" and ?n = "w * h"
  have at: "num_at ?d i = ?d ! i" "num_at ?d (?n + i) = ?d ! (?n + i)"
    "num_at ?d (2 * ?n + i) = ?d ! (2 * ?n + i)" if "i < ?n" for i
    using num_at_planes [OF assms(3) that] by blast+
  have scaled: "pixel_loop ?d ?n ! (i * 4) = round_clamp (js_times255 (?d ! i))
      \<and> pixel_loop ?d ?n ! (i * 4 + 1) = round_clamp (js_times255 (?d ! (?n + i)))
      \<and> pixel_loop ?d ?n ! (i * 4 + 2) = round_clamp (js_times255 (?d ! (2 * ?n + i)))"
    if "isNormalized ?d" and "i < ?n" for i
    using that pixel_loop_nth [OF that(2), of ?d] at [OF that(2)]
    by (simp add: channel_byte_def)
  have raw: "pixel_loop ?d ?n ! (i * 4) = round_clamp (?d ! i)
      \<and> pixel_loop ?d ?n ! (i * 4 + 1) = round_clamp (?d ! (?n + i))
      \<and> pixel_loop ?d ?n ! (i * 4 + 2) = round_clamp (?d ! (2 * ?n + i))"
    if "\<not> isNormalized ?d" and "i < ?n" for i
    using that pixel_loop_nth [OF that(2), of ?d] at [OF that(2)]
    by (simp add: channel_byte_def)
  have unscaled: "\<not> isNormalized ?d"
    if "\<exists>v\<in>set (take (min 1000 ?n) ?d). js_lt (Fin 2) (js_abs v)"
    using that isNormalized_sample [OF assms(3)] js_lt_not_le by blast
  show ?thesis
    using assms(1,2) scaled raw unscaled isNormalized_sample [OF assms(3)]
    by (simp add: postprocessImage_Inr)
qed

theorem range_auto_detection_witness:
  "(0::nat) < 2 \<and> (0::nat) < 1
   \<and> length (t_data unit_tensor) = 3 * (2 * 1) \<and> length (t_data raw_tensor) = 3 * (2 * 1)
   \<and> list_all (\<lambda>v. js_le (js_abs v) (Fin 2)) (take (min 1000 (2 * 1)) (t_data unit_tensor))
   \<and> (\<exists>v\<in>set (take (min 1000 (2 * 1)) (t_data raw_tensor)). js_lt (Fin 2) (js_abs v))
   \<and> (\<exists>img. postprocessImage unit_tensor 2 1 = Inr img
         \<and> img_data img ! 0 = round_clamp (js_times255 (Fin 2))
         \<and> img_data img ! 0 = 255 \<and> img_data img ! 1 = 77 \<and> img_data img ! 2 = 128)
   \<and> (\<exists>img. postprocessImage raw_tensor 2 1 = Inr img
         \<and> img_data img ! 0 = round_clamp (Fin 2)
         \<and> img_data img ! 0 = 2 \<and> img_data img ! 1 = 0 \<and> img_data img ! 2 = 255)"
proof -
  have p: "(0::nat) < 2" "(0::nat) < 1" by simp_all
  have l: "length (t_data unit_tensor) = 3 * (2 * 1)" "length (t_data raw_tensor) = 3 * (2 * 1)"
    by (simp_all add: unit_tensor_def raw_tensor_def)
  have a: "\<forall>v\<in>set (take (min 1000 (2 * 1)) (t_data unit_tensor)). js_le (js_abs v) (Fin 2)"
    by (simp add: unit_tensor_def)
  have b: "\<exists>v\<in>set (take (min 1000 (2 * 1)) (t_data raw_tensor)). js_lt (Fin 2) (js_abs v)"
    by (simp add: raw_tensor_def)
  obtain img where i: "postprocessImage unit_tensor 2 1 = Inr img"
    "\<forall>i<2 * 1.
            img_data img ! (i * 4) = round_clamp (js_times255 (t_data unit_tensor ! i))
          \<and> img_data img ! (i * 4 + 1) = round_clamp (js_times255 (t_data unit_tensor ! (2 * 1 + i)))
          \<and> img_data img ! (i * 4 + 2) = round_clamp (js_times255 (t_data unit_tensor ! (2 * (2 * 1) + i)))"
    using range_auto_detection [OF p l(1)] a by blast
  obtain img' where i': "postprocessImage raw_tensor 2 1 = Inr img'"
    "\<forall>i<2 * 1.
            img_data img' ! (i * 4) = round_clamp (t_data raw_tensor ! i)
          \<and> img_data img' ! (i * 4 + 1) = round_clamp (t_data raw_tensor ! (2 * 1 + i))
          \<and> img_data img' ! (i * 4 + 2) = round_clamp (t_data raw_tensor ! (2 * (2 * 1) + i))"
    using range_auto_detection [OF p l(2)] b by blast
  have z: "(0::nat) < 2 * 1" by simp
  from i(2) [rule_format, OF z] have "img_data img ! 0 = round_clamp (js_times255 (Fin 2))
         \<and> img_data img ! 0 = 255 \<and> img_data img ! 1 = 77 \<and> img_data img ! 2 = 128"
    by (simp add: unit_tensor_def round_clamp_def round_half_even_def numeral_2_eq_2)
  moreover from i'(2) [rule_format, OF z] have "img_data img' ! 0 = round_clamp (Fin 2)
         \<and> img_data img' ! 0 = 2 \<and> img_data img' ! 1 = 0 \<and> img_data img' ! 2 = 255"
    by (simp add: raw_tensor_def round_clamp_def round_half_even_def numeral_2_eq_2)
  moreover have "list_all (\<lambda>v. js_le (js_abs v) (Fin 2))
      (take (min 1000 (2 * 1)) (t_data unit_tensor))"
    using a by (simp only: list_all_iff)
  ultimately show ?thesis using p l b i(1) i'(1) by blast
qed

subsection \<open>The round trip\<close>

lemma f32_accurate_grid24: "f32_accurate grid24"
proof -
  have "\<bar>grid24 x - x\<bar> \<le> 1 / 2 ^ 24" for x
  proof -
    define y where "y = x * 2 ^ 24"
    define k where "k = \<lfloor>y + 1 / 2\<rfloor>"
    have x: "x = y / 2 ^ 24" by (simp add: y_def)
    have eq: "grid24 x - x = (of_int k - y) / 2 ^ 24"
      unfolding grid24_def k_def y_def by (simp add: diff_divide_distrib)
    have p: "\<bar>(2::real) ^ 24\<bar> = 2 ^ 24" by simp
    have "\<bar>grid24 x - x\<bar> = \<bar>of_int k - y\<bar> / \<bar>2 ^ 24\<bar>"
      unfolding eq by (rule abs_divide)
    then have a: "\<bar>grid24 x - x\<bar> = \<bar>of_int k - y\<bar> / 2 ^ 24"
      by (simp only: p)
    have "\<bar>of_int k - y\<bar> \<le> 1" unfolding k_def by linarith
    then have "\<bar>of_int k - y\<bar> / 2 ^ 24 \<le> 1 / 2 ^ 24"
      by (rule divide_right_mono) simp
    then show ?thesis by (simp only: a)
  qed
  then show ?thesis by (simp add: f32_accurate_def)
qed

lemma image_loop_length [simp]: "length (image_loop f d n) = 3 * n"
  by (simp add: image_loop_def)

lemma image_loop_nth:
  assumes "i < n"
  shows "image_loop f d n ! i = normalized_channel f d (i * 4)"
    and "image_loop f d n ! (n + i) = normalized_channel f d (i * 4 + 1)"
    and "image_loop f d n ! (2 * n + i) = normalized_channel f d (i * 4 + 2)"
proof -
  have len: "3 * n \<le> length (replicate (3 * n) (Fin 0))" by simp
  note f = image_fold_nth [OF len order_refl assms, of f d]
  show "image_loop f d n ! i = normalized_channel f d (i * 4)"
    unfolding image_loop_def by (rule f)
  show "image_loop f d n ! (n + i) = normalized_channel f d (i * 4 + 1)"
    unfolding image_loop_def by (rule f)
  show "image_loop f d n ! (2 * n + i) = normalized_channel f d (i * 4 + 2)"
    unfolding image_loop_def by (rule f)
qed

lemma normalized_channel_in_range:
  "k < length d \<Longrightarrow> normalized_channel f d k = Fin (f (real (d ! k) / 255))"
  by (simp add: normalized_channel_def byte_at_def)

lemma f32_accurate_unit:
  assumes "f32_accurate f" and "b \<le> 255"
  shows "\<bar>f (real b / 255) - real b / 255\<bar> \<le> 1 / 2 ^ 24"
  using assms by (simp add: f32_accurate_def)

lemma channel_byte_round_trip:
  assumes "f32_accurate f" and "b \<le> 255"
  shows "channel_byte True (Fin (f (real b / 255))) = b"
proof -
  let ?v = "f (real b / 255)"
  have e: "\<bar>?v - real b / 255\<bar> \<le> 1 / 2 ^ 24" by (rule f32_accurate_unit [OF assms])
  have "\<bar>?v * 255 - real b\<bar> = \<bar>?v - real b / 255\<bar> * 255" by (simp add: abs_if field_simps)
  with e have "\<bar>?v * 255 - real b\<bar> \<le> 255 / 2 ^ 24" by simp
  then have "\<bar>?v * 255 - real b\<bar> < 1 / 2" by simp
  then have "\<lfloor>?v * 255 + 1 / 2\<rfloor> = int b" by linarith
  then have r: "js_round (js_times255 (Fin ?v)) = Fin (real b)" by simp
  have "js_min (Fin 255) (js_max (Fin 0) (Fin (real b))) = Fin (real b)"
    using assms(2) by auto
  with r show ?thesis
    using assms(2) by (simp add: channel_byte_def round_clamp_def)
qed

lemma abs_le_two:
  assumes "f32_accurate f" and "b \<le> 255"
  shows "\<bar>f (real b / 255)\<bar> \<le> 2"
proof -
  have "\<bar>f (real b / 255) - real b / 255\<bar> \<le> 1 / 2 ^ 24" by (rule f32_accurate_unit [OF assms])
  moreover have "real b / 255 \<le> 1" "0 \<le> real b / 255" using assms(2) by simp_all
  moreover have "(1::real) / 2 ^ 24 \<le> 1" by simp
  ultimately show ?thesis by linarith
qed

text \<open>
  C4. Encoding a well-formed image with \<open>preprocessImage\<close> and decoding its image
  tensor with \<open>postprocessImage\<close> gives back an image of the same dimensions whose
  R, G and B bytes differ from the original ones by at most 1 and whose alpha bytes are
  all 255, for every single-precision rounding that is accurate on \<open>[0, 1]\<close>.
\<close>

theorem codec_round_trip:
  assumes acc: "f32_accurate f32"
    and pos: "0 < img_width img" "0 < img_height img"
    and len: "length (img_data img) = 4 * (img_width img * img_height img)"
    and bytes: "\<forall>b\<in>set (img_data img). b \<le> 255"
  shows "\<exists>out. postprocessImage (imageTensor (preprocessImage f32 cfg img))
                 (img_width img) (img_height img) = Inr out
     \<and> img_width out = img_width img \<and> img_height out = img_height img
     \<and> (\<forall>i<img_width img * img_height img.
           \<bar>int (img_data out ! (i * 4)) - int (img_data img ! (i * 4))\<bar> \<le> 1
         \<and> \<bar>int (img_data out ! (i * 4 + 1)) - int (img_data img ! (i * 4 + 1))\<bar> \<le> 1
         \<and> \<bar>int (img_data out ! (i * 4 + 2)) - int (img_data img ! (i * 4 + 2))\<bar> \<le> 1
         \<and> img_data out ! (i * 4 + 3) = 255)"
proof -
  define n where "n = img_width img * img_height img"
  define d where "d = img_data img"
  define T where "T = image_loop f32 d n"
  have lenT: "length T = 3 * n" by (simp add: T_def)
  have lend: "length d = 4 * n" using len by (simp add: d_def n_def)
  have byte: "d ! k \<le> 255" if "k < 4 * n" for k
    using bytes that lend by (simp add: d_def)
  have Tdata: "t_data (imageTensor (preprocessImage f32 cfg img)) = T"
    by (simp add: preprocessImage_def Let_def T_def d_def n_def)
  have plane:
    "T ! i = Fin (f32 (real (d ! (i * 4)) / 255))"
    "T ! (n + i) = Fin (f32 (real (d ! (i * 4 + 1)) / 255))"
    "T ! (2 * n + i) = Fin (f32 (real (d ! (i * 4 + 2)) / 255))" if "i < n" for i
    using image_loop_nth [OF that, of f32 d] that lend
    by (simp_all add: T_def normalized_channel_in_range)
  have nrm: "isNormalized T"
    unfolding isNormalized_iff sample_rounds_planes [OF lenT]
  proof (intro allI impI)
    fix i assume "i < min 1000 n"
    then have i: "i < n" by simp
    then have "num_at T i = Fin (f32 (real (d ! (i * 4)) / 255))"
      using plane(1) [OF i] lenT by (simp add: num_at_def)
    moreover have "d ! (i * 4) \<le> 255" using i by (intro byte) simp
    ultimately show "js_le (js_abs (num_at T i)) (Fin 2)"
      using abs_le_two [OF acc] by simp
  qed
  have px: "pixel_loop T n ! (i * 4) = d ! (i * 4)
      \<and> pixel_loop T n ! (i * 4 + 1) = d ! (i * 4 + 1)
      \<and> pixel_loop T n ! (i * 4 + 2) = d ! (i * 4 + 2)
      \<and> pixel_loop T n ! (i * 4 + 3) = 255" if "i < n" for i
  proof -
    have b: "d ! (i * 4) \<le> 255" "d ! (i * 4 + 1) \<le> 255" "d ! (i * 4 + 2) \<le> 255"
      using that by (auto intro!: byte)
    show ?thesis
      using pixel_loop_nth [OF that, of T] num_at_planes [OF lenT that] plane [OF that] nrm
        channel_byte_round_trip [OF acc b(1)] channel_byte_round_trip [OF acc b(2)]
        channel_byte_round_trip [OF acc b(3)]
      by simp
  qed
  have "postprocessImage (imageTensor (preprocessImage f32 cfg img))
          (img_width img) (img_height img)
        = Inr \<lparr>img_width = img_width img, img_height = img_height img, img_data = pixel_loop T n\<rparr>"
    using pos by (simp add: postprocessImage_Inr Tdata n_def)
  moreover have "\<forall>i<n.
           \<bar>int (pixel_loop T n ! (i * 4)) - int (d ! (i * 4))\<bar> \<le> 1
         \<and> \<bar>int (pixel_loop T n ! (i * 4 + 1)) - int (d ! (i * 4 + 1))\<bar> \<le> 1
         \<and> \<bar>int (pixel_loop T n ! (i * 4 + 2)) - int (d ! (i * 4 + 2))\<bar> \<le> 1
         \<and> pixel_loop T n ! (i * 4 + 3) = 255"
    using px by simp
  ultimately show ?thesis
    by (simp add: n_def d_def)
qed

theorem codec_round_trip_witness:
  "f32_accurate grid24 \<and> 0 < img_width sample_image \<and> 0 < img_height sample_image
   \<and> length (img_data sample_image) = 4 * (img_width sample_image * img_height sample_image)
   \<and> set (img_data sample_image) \<subseteq> {0..255}
   \<and> postprocessImage (imageTensor (preprocessImage grid24 sample_config sample_image)) 2 1
       = Inr \<lparr>img_width = 2, img_height = 1, img_data = [200, 100, 50, 255, 0, 255, 1, 255]\<rparr>
   \<and> (\<exists>out. postprocessImage (imageTensor (preprocessImage grid24 sample_config sample_image))
                (img_width sample_image) (img_height sample_image) = Inr out
         \<and> \<bar>int (img_data out ! 0) - int (img_data sample_image ! 0)\<bar> \<le> 1
         \<and> img_data out ! 3 = 255)"
proof -
  have h: "0 < img_width sample_image" "0 < img_height sample_image"
    "length (img_data sample_image) = 4 * (img_width sample_image * img_height sample_image)"
    "\<forall>b\<in>set (img_data sample_image). b \<le> 255"
    by (simp_all add: sample_image_def)
  have v: "postprocessImage (imageTensor (preprocessImage grid24 sample_config sample_image)) 2 1
       = Inr \<lparr>img_width = 2, img_height = 1, img_data = [200, 100, 50, 255, 0, 255, 1, 255]\<rparr>"
    by code_simp
  obtain out where o: "postprocessImage (imageTensor (preprocessImage grid24 sample_config sample_image))
                (img_width sample_image) (img_height sample_image) = Inr out"
    "\<forall>i<img_width sample_image * img_height sample_image.
           \<bar>int (img_data out ! (i * 4)) - int (img_data sample_image ! (i * 4))\<bar> \<le> 1
         \<and> \<bar>int (img_data out ! (i * 4 + 1)) - int (img_data sample_image ! (i * 4 + 1))\<bar> \<le> 1
         \<and> \<bar>int (img_data out ! (i * 4 + 2)) - int (img_data sample_image ! (i * 4 + 2))\<bar> \<le> 1
         \<and> img_data out ! (i * 4 + 3) = 255"
    using codec_round_trip [OF f32_accurate_grid24 h, of sample_config] by blast
  have "0 < img_width sample_image * img_height sample_image" using h by simp
  with o(2) have "\<bar>int (img_data out ! 0) - int (img_data sample_image ! 0)\<bar> \<le> 1
         \<and> img_data out ! 3 = 255"
    by fastforce
  moreover have "set (img_data sample_image) \<subseteq> {0..255}"
    using h(4) by auto
  ultimately show ?thesis using o(1) f32_accurate_grid24 h(1-3) v by blast
qed

section \<open>Properties of the compositor\<close>








section \<open>Properties of the model manager\<close>

subsection \<open>Single flight\<close>

lemma initialize_attach:
  "\<not> isInitialized (mgr w) \<Longrightarrow> initializationPromise (mgr w) = Some p
     \<Longrightarrow> initialize cfg cb w = (w, Attempt p)"
  by (simp add: initialize_def)

lemma initialize_all_attach:
  "\<not> isInitialized (mgr w) \<Longrightarrow> initializationPromise (mgr w) = Some p
     \<Longrightarrow> initialize_all cfg cbs w = (w, replicate (length cbs) (Attempt p))"
  by (induction cbs) (simp_all add: initialize_attach)

lemma inv_task:
  assumes "single_flight_inv w" and "tasks w q = Some t"
  shows "initializationPromise (mgr w) = Some q" and "\<not> isInitialized (mgr w)"
    and "q < length (promises w)" and "promises w ! q = Pending"
    and "before_create t \<Longrightarrow> creates w < length (promises w)"
  using assms unfolding single_flight_inv_def by blast+

lemma report_fields [simp]:
  "mgr (report cb e w) = mgr w" "promises (report cb e w) = promises w"
  "tasks (report cb e w) = tasks w" "fetches (report cb e w) = fetches w"
  "creates (report cb e w) = creates w" "releasing (report cb e w) = releasing w"
  "ortLoaded (report cb e w) = ortLoaded w"
  by (simp_all add: report_def)

lemma catch_error_fields [simp]:
  "mgr (catch_error cfg p m w) = (mgr w)\<lparr>initializationPromise := None\<rparr>"
  "promises (catch_error cfg p m w) = (promises w)[p := Rejected (load_failed cfg m)]"
  "tasks (catch_error cfg p m w) = (tasks w)(p := None)"
  "fetches (catch_error cfg p m w) = fetches w" "creates (catch_error cfg p m w) = creates w"
  "releasing (catch_error cfg p m w) = releasing w" "ortLoaded (catch_error cfg p m w) = ortLoaded w"
  by (simp_all add: catch_error_def)

lemma begin_create_fields [simp]:
  "mgr (begin_create cfg p cb w) = mgr w" "promises (begin_create cfg p cb w) = promises w"
  "tasks (begin_create cfg p cb w) = (tasks w)(p \<mapsto> AwaitCreate cb)"
  "fetches (begin_create cfg p cb w) = fetches w"
  "creates (begin_create cfg p cb w) = creates w + 1"
  "releasing (begin_create cfg p cb w) = releasing w"
  "ortLoaded (begin_create cfg p cb w) = ortLoaded w"
  by (simp_all add: begin_create_def Let_def)

lemma start_attempt_fields:
  "mgr (start_attempt cfg p cb w) =
     (if ortLoaded w then mgr w else (mgr w)\<lparr>initializationPromise := None\<rparr>)"
  "promises (start_attempt cfg p cb w) =
     (if ortLoaded w then promises w
      else (promises w)[p := Rejected (load_failed cfg ''ONNX Runtime not loaded'')])"
  "tasks (start_attempt cfg p cb w) =
     (if ortLoaded w
      then (tasks w)(p \<mapsto> (if modelBuffer (mgr w) = None then AwaitFetch cb else AwaitCreate cb))
      else (tasks w)(p := None))"
  "fetches (start_attempt cfg p cb w) =
     (if ortLoaded w \<and> modelBuffer (mgr w) = None then fetches w + 1 else fetches w)"
  "creates (start_attempt cfg p cb w) =
     (if ortLoaded w \<and> modelBuffer (mgr w) \<noteq> None then creates w + 1 else creates w)"
  "releasing (start_attempt cfg p cb w) = releasing w"
  "ortLoaded (start_attempt cfg p cb w) = ortLoaded w"
  by (auto simp: start_attempt_def split: option.splits)

lemma initialize_new:
  assumes "\<not> isInitialized (mgr w)" and "initializationPromise (mgr w) = None"
  shows "snd (initialize cfg cb w) = Attempt (length (promises w))"
    and "mgr (fst (initialize cfg cb w)) = (mgr w)\<lparr>initializationPromise := Some (length (promises w))\<rparr>"
    and "promises (fst (initialize cfg cb w)) = promises w @
           [if ortLoaded w then Pending else Rejected (load_failed cfg ''ONNX Runtime not loaded'')]"
    and "tasks (fst (initialize cfg cb w)) =
           (if ortLoaded w
            then (tasks w)(length (promises w) \<mapsto>
                   (if modelBuffer (mgr w) = None then AwaitFetch cb else AwaitCreate cb))
            else (tasks w)(length (promises w) := None))"
    and "fetches (fst (initialize cfg cb w)) =
           (if ortLoaded w \<and> modelBuffer (mgr w) = None then fetches w + 1 else fetches w)"
    and "creates (fst (initialize cfg cb w)) =
           (if ortLoaded w \<and> modelBuffer (mgr w) \<noteq> None then creates w + 1 else creates w)"
    and "releasing (fst (initialize cfg cb w)) = releasing w"
    and "ortLoaded (fst (initialize cfg cb w)) = ortLoaded w"
  using assms by (simp_all add: initialize_def Let_def start_attempt_fields)

lemma single_flight_invI:
  assumes "\<And>q t. tasks w q = Some t \<Longrightarrow>
        initializationPromise (mgr w) = Some q \<and> \<not> isInitialized (mgr w)
        \<and> q < length (promises w) \<and> promises w ! q = Pending
        \<and> (before_create t \<longrightarrow> creates w < length (promises w))"
    and "\<And>q. q < length (promises w) \<Longrightarrow> promises w ! q = Pending \<Longrightarrow> tasks w q \<noteq> None"
    and "fetches w \<le> length (promises w)" and "creates w \<le> length (promises w)"
  shows "single_flight_inv w"
  using assms unfolding single_flight_inv_def by blast

lemma inv_counts:
  assumes "single_flight_inv w"
  shows "fetches w \<le> length (promises w)" and "creates w \<le> length (promises w)"
  using assms unfolding single_flight_inv_def by blast+

lemma inv_pending:
  assumes "single_flight_inv w" and "q < length (promises w)" and "promises w ! q = Pending"
  shows "tasks w q \<noteq> None"
  using assms unfolding single_flight_inv_def by blast

lemma inv_initialize:
  assumes "single_flight_inv w"
  shows "single_flight_inv (fst (initialize cfg cb w))"
proof (cases "isInitialized (mgr w) \<or> initializationPromise (mgr w) \<noteq> None")
  case True
  then show ?thesis using assms by (auto simp: initialize_def)
next
  case False
  then have u: "\<not> isInitialized (mgr w)" "initializationPromise (mgr w) = None" by simp_all
  have idle: "tasks w q = None" for q
  proof (cases "tasks w q")
    case (Some t)
    from inv_task(1) [OF assms Some] u show ?thesis by simp
  qed simp
  note f = initialize_new [OF u, of cfg cb]
  show ?thesis
  proof (rule single_flight_invI)
    fix q t assume "tasks (fst (initialize cfg cb w)) q = Some t"
    then have q: "q = length (promises w)" "ortLoaded w"
      "t = (if modelBuffer (mgr w) = None then AwaitFetch cb else AwaitCreate cb)"
      by (auto simp: f idle split: if_splits)
    show "initializationPromise (mgr (fst (initialize cfg cb w))) = Some q
        \<and> \<not> isInitialized (mgr (fst (initialize cfg cb w)))
        \<and> q < length (promises (fst (initialize cfg cb w)))
        \<and> promises (fst (initialize cfg cb w)) ! q = Pending
        \<and> (before_create t \<longrightarrow>
             creates (fst (initialize cfg cb w)) < length (promises (fst (initialize cfg cb w))))"
      using q u inv_counts(2) [OF assms] by (simp add: f)
  next
    fix q assume "q < length (promises (fst (initialize cfg cb w)))"
      and "promises (fst (initialize cfg cb w)) ! q = Pending"
    then have "q = length (promises w) \<and> ortLoaded w"
      using inv_pending [OF assms, of q] idle [of q]
      by (auto simp: f nth_append less_Suc_eq split: if_splits)
    then show "tasks (fst (initialize cfg cb w)) q \<noteq> None" by (simp add: f)
  next
    show "fetches (fst (initialize cfg cb w)) \<le> length (promises (fst (initialize cfg cb w)))"
      using inv_counts(1) [OF assms] by (simp add: f)
    show "creates (fst (initialize cfg cb w)) \<le> length (promises (fst (initialize cfg cb w)))"
      using inv_counts(2) [OF assms] by (simp add: f)
  qed
qed

lemma inv_only:
  assumes "single_flight_inv w" and "tasks w p = Some t" and "tasks w q = Some u"
  shows "q = p"
  using inv_task(1) [OF assms(1,2)] inv_task(1) [OF assms(1,3)] by simp

lemma pending_after_update:
  assumes "q < length xs" and "xs[p := v] ! q = Pending" and "v \<noteq> Pending"
  shows "q \<noteq> p" and "xs ! q = Pending"
  using assms by (cases "q = p"; simp)+

lemma inv_catch_error:
  assumes "single_flight_inv w" and "tasks w p = Some t"
  shows "single_flight_inv (catch_error cfg p m w)"
proof (rule single_flight_invI)
  fix q u assume "tasks (catch_error cfg p m w) q = Some u"
  then have "q \<noteq> p" "tasks w q = Some u" by (auto split: if_splits)
  with inv_only [OF assms] have False by blast
  then show "initializationPromise (mgr (catch_error cfg p m w)) = Some q
      \<and> \<not> isInitialized (mgr (catch_error cfg p m w))
      \<and> q < length (promises (catch_error cfg p m w))
      \<and> promises (catch_error cfg p m w) ! q = Pending
      \<and> (before_create u \<longrightarrow>
           creates (catch_error cfg p m w) < length (promises (catch_error cfg p m w)))" ..
next
  fix q assume "q < length (promises (catch_error cfg p m w))"
    and "promises (catch_error cfg p m w) ! q = Pending"
  then have "q \<noteq> p" "q < length (promises w)" "promises w ! q = Pending"
    using pending_after_update [of q "promises w" p "Rejected (load_failed cfg m)"] by simp_all
  with inv_pending [OF assms(1)] show "tasks (catch_error cfg p m w) q \<noteq> None" by simp
next
  show "fetches (catch_error cfg p m w) \<le> length (promises (catch_error cfg p m w))"
    using inv_counts(1) [OF assms(1)] by simp
  show "creates (catch_error cfg p m w) \<le> length (promises (catch_error cfg p m w))"
    using inv_counts(2) [OF assms(1)] by simp
qed

lemma inv_retask:
  assumes inv: "single_flight_inv w" and t: "tasks w p = Some t"
    and m: "initializationPromise (mgr w') = initializationPromise (mgr w)"
      "isInitialized (mgr w') = isInitialized (mgr w)"
    and pr: "promises w' = promises w" and ta: "tasks w' = (tasks w)(p \<mapsto> t')"
    and f: "fetches w' = fetches w" and c: "creates w' \<le> length (promises w)"
    and b: "before_create t' \<Longrightarrow> creates w' < length (promises w)"
  shows "single_flight_inv w'"
proof (rule single_flight_invI)
  fix q u assume a: "tasks w' q = Some u"
  show "initializationPromise (mgr w') = Some q \<and> \<not> isInitialized (mgr w')
      \<and> q < length (promises w') \<and> promises w' ! q = Pending
      \<and> (before_create u \<longrightarrow> creates w' < length (promises w'))"
  proof (cases "q = p")
    case True
    with a ta have "u = t'" by simp
    with True inv_task [OF inv t] b show ?thesis by (simp add: m pr)
  next
    case False
    with a ta have "tasks w q = Some u" by simp
    with inv_only [OF inv t] False show ?thesis by blast
  qed
next
  fix q assume "q < length (promises w')" and "promises w' ! q = Pending"
  with inv_pending [OF inv, of q] show "tasks w' q \<noteq> None" by (simp add: pr ta)
next
  show "fetches w' \<le> length (promises w')" using inv_counts(1) [OF inv] by (simp add: f pr)
  show "creates w' \<le> length (promises w')" using c by (simp add: pr)
qed

lemma inv_created:
  assumes inv: "single_flight_inv w" and t: "tasks w p = Some t"
    and pr: "promises w' = (promises w)[p := Fulfilled]" and ta: "tasks w' = (tasks w)(p := None)"
    and f: "fetches w' = fetches w" and c: "creates w' = creates w"
  shows "single_flight_inv w'"
proof (rule single_flight_invI)
  fix q u assume "tasks w' q = Some u"
  then have "q \<noteq> p" "tasks w q = Some u" by (auto simp: ta split: if_splits)
  with inv_only [OF inv t] have False by blast
  then show "initializationPromise (mgr w') = Some q \<and> \<not> isInitialized (mgr w')
      \<and> q < length (promises w') \<and> promises w' ! q = Pending
      \<and> (before_create u \<longrightarrow> creates w' < length (promises w'))" ..
next
  fix q assume "q < length (promises w')" and "promises w' ! q = Pending"
  then have "q \<noteq> p" "q < length (promises w)" "promises w ! q = Pending"
    using pending_after_update [of q "promises w" p Fulfilled] by (simp_all add: pr)
  with inv_pending [OF inv] show "tasks w' q \<noteq> None" by (simp add: ta)
next
  show "fetches w' \<le> length (promises w')" using inv_counts(1) [OF inv] by (simp add: f pr)
  show "creates w' \<le> length (promises w')" using inv_counts(2) [OF inv] by (simp add: c pr)
qed

lemma inv_resume:
  assumes inv: "single_flight_inv w" and t: "tasks w p = Some t"
  shows "single_flight_inv (resume cfg p t r w)"
proof (cases t)
  case (AwaitFetch cb)
  show ?thesis
  proof (cases r)
    case (Response ok st len)
    show ?thesis
    proof (cases ok)
      case True
      have "single_flight_inv (w\<lparr>tasks := (tasks w)(p \<mapsto> AwaitRead cb len 0 [])\<rparr>)"
        using inv_task(5) [OF inv t] inv_counts(2) [OF inv] AwaitFetch
        by (intro inv_retask [OF inv t, where t' = "AwaitRead cb len 0 []"]) simp_all
      with True AwaitFetch Response show ?thesis by simp
    next
      case False
      with AwaitFetch Response inv_catch_error [OF inv t] show ?thesis by simp
    qed
  qed (use AwaitFetch inv inv_catch_error [OF inv t] in simp_all)
next
  case (AwaitRead cb len recv buf)
  have b: "creates w < length (promises w)" using inv_task(5) [OF inv t] AwaitRead by simp
  show ?thesis
  proof (cases r)
    case (Chunk v)
    have "single_flight_inv (resume cfg p (AwaitRead cb len recv buf) (Chunk v) w)"
      using b
      by (intro inv_retask [OF inv t, where t' = "AwaitRead cb len (recv + length v) (buf @ v)"])
        (simp_all add: Let_def)
    with AwaitRead Chunk show ?thesis by simp
  next
    case Done
    have "single_flight_inv (resume cfg p (AwaitRead cb len recv buf) Done w)"
      using b by (intro inv_retask [OF inv t, where t' = "AwaitCreate cb"]) simp_all
    with AwaitRead Done show ?thesis by simp
  qed (use AwaitRead inv inv_catch_error [OF inv t] in simp_all)
next
  case (AwaitCreate cb)
  show ?thesis
  proof (cases r)
    case (Created s)
    have "single_flight_inv (resume cfg p (AwaitCreate cb) (Created s) w)"
      by (intro inv_created [OF inv t]) (simp_all add: Let_def)
    with AwaitCreate Created show ?thesis by simp
  qed (use AwaitCreate inv inv_catch_error [OF inv t] in simp_all)
qed

lemma inv_settle:
  assumes "single_flight_inv w"
  shows "single_flight_inv (settle cfg p r w)"
  using assms inv_resume [OF assms] by (simp add: settle_def split: option.splits)

lemma inv_step:
  assumes "single_flight_inv w" and "no_teardown e"
  shows "single_flight_inv (step cfg w e)"
  using assms by (cases e) (simp_all add: inv_initialize inv_settle)

lemma inv_run:
  assumes "single_flight_inv w" and "\<forall>e\<in>set es. no_teardown e"
  shows "single_flight_inv (run_events cfg w es)"
  using assms unfolding run_events_def
  by (induction es arbitrary: w) (simp_all add: inv_step)

lemma inv_new_world: "single_flight_inv (new_world ort)"
  by (simp add: single_flight_inv_def new_world_def)

lemma resume_promises:
  "promises (resume cfg q t r w) = promises w
   \<or> (\<exists>v. promises (resume cfg q t r w) = (promises w)[q := v])"
  by (cases t; cases r) (auto simp: Let_def)

lemma settled_stable_step:
  assumes inv: "single_flight_inv w" and e: "no_teardown e"
    and p: "p < length (promises w)" "promises w ! p \<noteq> Pending"
  shows "p < length (promises (step cfg w e)) \<and> promises (step cfg w e) ! p = promises w ! p"
proof (cases e)
  case (Initialize cb)
  show ?thesis
  proof (cases "isInitialized (mgr w) \<or> initializationPromise (mgr w) \<noteq> None")
    case True
    with Initialize show ?thesis using p by (auto simp: initialize_def)
  next
    case False
    then have u: "\<not> isInitialized (mgr w)" "initializationPromise (mgr w) = None" by simp_all
    show ?thesis using p Initialize by (simp add: initialize_new(3) [OF u] nth_append)
  qed
next
  case (Settle q r)
  show ?thesis
  proof (cases "tasks w q")
    case None
    with Settle p show ?thesis by (simp add: settle_def)
  next
    case (Some t)
    from inv_task(4) [OF inv Some] p(2) have "q \<noteq> p" by auto
    with resume_promises [of cfg q t r w] p Some Settle show ?thesis
      by (auto simp: settle_def)
  qed
qed (use e in simp_all)

lemma settled_stable:
  assumes "single_flight_inv w" and "\<forall>e\<in>set es. no_teardown e"
    and "p < length (promises w)" and "promises w ! p \<noteq> Pending"
  shows "p < length (promises (run_events cfg w es))
       \<and> promises (run_events cfg w es) ! p = promises w ! p"
  using assms unfolding run_events_def
proof (induction es arbitrary: w)
  case Nil
  then show ?case by simp
next
  case (Cons e es)
  from Cons.prems have e: "no_teardown e" and es: "\<forall>e\<in>set es. no_teardown e" by simp_all
  note s = settled_stable_step [OF Cons.prems(1) e Cons.prems(3,4), of cfg]
  have "p < length (promises (foldl (step cfg) (step cfg w e) es))
      \<and> promises (foldl (step cfg) (step cfg w e) es) ! p = promises (step cfg w e) ! p"
    using s Cons.prems(4) by (intro Cons.IH [OF inv_step [OF Cons.prems(1) e] es]) simp_all
  with s show ?case by simp
qed

lemma one_pending:
  assumes inv: "single_flight_inv w"
    and "q < length (promises w)" "promises w ! q = Pending"
    and "q' < length (promises w)" "promises w ! q' = Pending"
  shows "q = q'"
proof -
  obtain t where t: "tasks w q = Some t" using inv_pending [OF inv assms(2,3)] by auto
  obtain t' where t': "tasks w q' = Some t'" using inv_pending [OF inv assms(4,5)] by auto
  from inv_only [OF inv t' t] show ?thesis .
qed

lemma initialize_first:
  assumes u: "\<not> isInitialized (mgr w)" "initializationPromise (mgr w) = None"
  shows "initialize_all cfg (cb # cbs) w =
           (fst (initialize cfg cb w), replicate (Suc (length cbs)) (Attempt (length (promises w))))"
proof -
  obtain w1 h where i: "initialize cfg cb w = (w1, h)" by (cases "initialize cfg cb w")
  from initialize_new(1,2) [OF u, of cfg cb] i
  have h: "h = Attempt (length (promises w))"
    and m: "mgr w1 = (mgr w)\<lparr>initializationPromise := Some (length (promises w))\<rparr>" by simp_all
  have "initialize_all cfg cbs w1 = (w1, replicate (length cbs) (Attempt (length (promises w))))"
    using u by (intro initialize_all_attach) (simp_all add: m)
  with i h show ?thesis by simp
qed

text \<open>
  C1. Single flight. In every state that calls of \<open>initialize\<close> and answers to the
  awaits lead to, in any interleaving, at most one attempt is pending, and no more fetches
  of the model and no more creations of a session have been started than attempts. While
  the state is initialising, any number of calls of \<open>initialize\<close> start nothing: the
  world is unchanged and every caller receives the promise of the attempt in flight. From
  the uninitialised state the first of the calls starts the one attempt, with at most one
  fetch and one creation, and all callers receive its promise. A promise that has settled
  keeps its outcome, so all callers observe the same success or the same failure.
\<close>

theorem single_flight:
  assumes "single_flight_inv w" and "\<forall>e\<in>set es. no_teardown e"
  shows "(\<forall>q q'. q < length (promises (run_events cfg w es)) \<and> q' < length (promises (run_events cfg w es))
            \<and> promises (run_events cfg w es) ! q = Pending
            \<and> promises (run_events cfg w es) ! q' = Pending \<longrightarrow> q = q')
     \<and> fetches (run_events cfg w es) \<le> length (promises (run_events cfg w es))
     \<and> creates (run_events cfg w es) \<le> length (promises (run_events cfg w es))
     \<and> (\<forall>p cbs. \<not> isInitialized (mgr (run_events cfg w es))
            \<and> initializationPromise (mgr (run_events cfg w es)) = Some p \<longrightarrow>
          initialize_all cfg cbs (run_events cfg w es)
            = (run_events cfg w es, replicate (length cbs) (Attempt p)))
     \<and> (\<forall>cb cbs. \<not> isInitialized (mgr (run_events cfg w es))
            \<and> initializationPromise (mgr (run_events cfg w es)) = None \<longrightarrow>
          snd (initialize_all cfg (cb # cbs) (run_events cfg w es))
            = replicate (Suc (length cbs)) (Attempt (length (promises (run_events cfg w es))))
        \<and> fetches (fst (initialize_all cfg (cb # cbs) (run_events cfg w es)))
            \<le> fetches (run_events cfg w es) + 1
        \<and> creates (fst (initialize_all cfg (cb # cbs) (run_events cfg w es)))
            \<le> creates (run_events cfg w es) + 1)
     \<and> (\<forall>p es'. p < length (promises (run_events cfg w es))
            \<and> promises (run_events cfg w es) ! p \<noteq> Pending \<and> (\<forall>e\<in>set es'. no_teardown e) \<longrightarrow>
          observed (run_events cfg (run_events cfg w es) es') (Attempt p)
            = observed (run_events cfg w es) (Attempt p))"
proof -
  define w' where "w' = run_events cfg w es"
  have inv: "single_flight_inv w'" unfolding w'_def by (rule inv_run [OF assms])
  have a: "\<forall>q q'. q < length (promises w') \<and> q' < length (promises w')
            \<and> promises w' ! q = Pending \<and> promises w' ! q' = Pending \<longrightarrow> q = q'"
    using one_pending [OF inv] by blast
  have b: "\<forall>p cbs. \<not> isInitialized (mgr w') \<and> initializationPromise (mgr w') = Some p \<longrightarrow>
          initialize_all cfg cbs w' = (w', replicate (length cbs) (Attempt p))"
    using initialize_all_attach by blast
  have c: "snd (initialize_all cfg (cb # cbs) w')
            = replicate (Suc (length cbs)) (Attempt (length (promises w')))
        \<and> fetches (fst (initialize_all cfg (cb # cbs) w')) \<le> fetches w' + 1
        \<and> creates (fst (initialize_all cfg (cb # cbs) w')) \<le> creates w' + 1"
    if "\<not> isInitialized (mgr w') \<and> initializationPromise (mgr w') = None" for cb cbs
  proof -
    from that have u: "\<not> isInitialized (mgr w')" "initializationPromise (mgr w') = None"
      by simp_all
    show ?thesis
      by (simp add: initialize_first [OF u] initialize_new(5,6) [OF u] del: initialize_all.simps)
  qed
  have d: "observed (run_events cfg w' es') (Attempt p) = observed w' (Attempt p)"
    if "p < length (promises w') \<and> promises w' ! p \<noteq> Pending \<and> (\<forall>e\<in>set es'. no_teardown e)"
    for p es'
    using settled_stable [OF inv, of es' p cfg] that by simp
  show ?thesis
    unfolding w'_def [symmetric]
    using a b c d inv_counts [OF inv] by blast
qed

theorem single_flight_witness:
  "single_flight_inv (new_world True :: nat world) \<and> list_all no_teardown loading_run
   \<and> \<not> isInitialized (mgr (run_events sample_config (new_world True) loading_run))
   \<and> initializationPromise (mgr (run_events sample_config (new_world True) loading_run)) = Some 0
   \<and> fetches (run_events sample_config (new_world True) loading_run) = 1
   \<and> creates (run_events sample_config (new_world True) loading_run) = 0
   \<and> length (promises (run_events sample_config (new_world True) loading_run)) = 1
   \<and> initialize_all sample_config [False, True, False]
        (run_events sample_config (new_world True) loading_run)
       = (run_events sample_config (new_world True) loading_run, [Attempt 0, Attempt 0, Attempt 0])"
proof -
  let ?w = "run_events sample_config (new_world True) loading_run"
  have n: "\<forall>e\<in>set loading_run. no_teardown e" by (simp add: loading_run_def)
  have v: "\<not> isInitialized (mgr ?w)" "initializationPromise (mgr ?w) = Some 0"
    "fetches ?w = 1" "creates ?w = 0" "length (promises ?w) = 1"
    by (simp_all add: run_events_def loading_run_def new_world_def new_manager_def initialize_def
      start_attempt_def settle_def Let_def report_def)
  from single_flight [OF inv_new_world n, of sample_config] v(1,2)
  have "initialize_all sample_config [False, True, False] ?w
      = (?w, replicate (length [False, True, False]) (Attempt 0))"
    by blast
  then have "initialize_all sample_config [False, True, False] ?w
      = (?w, [Attempt 0, Attempt 0, Attempt 0])"
    by (simp add: numeral_3_eq_3)
  with v n inv_new_world [of True] show ?thesis by (simp add: list_all_iff)
qed

subsection \<open>Failure of an attempt\<close>

lemma settle_failure:
  assumes "tasks w p = Some t" and "failure_of t r = Some message"
  shows "settle cfg p r w = catch_error cfg p message w"
  using assms by (cases t; cases r) (auto simp: settle_def split: if_splits)

text \<open>
  C2, as amended. When the attempt in flight fails at an \<open>await\<close> (the fetch, a read of
  the body or the creation of the session), its promise is rejected with
  \<open>MODEL_LOAD_FAILED\<close>, a colon and the message of the cause, \<open>initializationPromise\<close>
  is cleared, and \<open>isInitialized\<close> and the session stay as they were, so the manager is
  uninitialised and the next call of \<open>initialize\<close> starts a new attempt. The cached
  model bytes are not discarded: the new attempt fetches the model again only when no
  bytes are cached, as after a failed fetch, and goes straight to the creation of the
  session with the bytes already fetched otherwise.
\<close>

theorem failed_attempt:
  assumes "tasks w p = Some t" and "failure_of t r = Some message" and "p < length (promises w)"
  shows "initializationPromise (mgr (settle cfg p r w)) = None
     \<and> isInitialized (mgr (settle cfg p r w)) = isInitialized (mgr w)
     \<and> session (mgr (settle cfg p r w)) = session (mgr w)
     \<and> modelBuffer (mgr (settle cfg p r w)) = modelBuffer (mgr w)
     \<and> observed (settle cfg p r w) (Attempt p)
         = Rejected (MODEL_LOAD_FAILED cfg @ '': '' @ message)
     \<and> (single_flight_inv w \<longrightarrow> \<not> isInitialized (mgr (settle cfg p r w)))
     \<and> (\<not> isInitialized (mgr w) \<and> ortLoaded w \<longrightarrow>
          snd (initialize cfg cb (settle cfg p r w)) = Attempt (length (promises w))
        \<and> tasks (fst (initialize cfg cb (settle cfg p r w))) (length (promises w))
            = Some (if modelBuffer (mgr w) = None then AwaitFetch cb else AwaitCreate cb)
        \<and> fetches (fst (initialize cfg cb (settle cfg p r w)))
            = (if modelBuffer (mgr w) = None then fetches w + 1 else fetches w))"
proof -
  let ?w = "catch_error cfg p message w"
  have s: "settle cfg p r w = ?w" by (rule settle_failure [OF assms(1,2)])
  have retry: "snd (initialize cfg cb ?w) = Attempt (length (promises w))
        \<and> tasks (fst (initialize cfg cb ?w)) (length (promises w))
            = Some (if modelBuffer (mgr w) = None then AwaitFetch cb else AwaitCreate cb)
        \<and> fetches (fst (initialize cfg cb ?w))
            = (if modelBuffer (mgr w) = None then fetches w + 1 else fetches w)"
    if "\<not> isInitialized (mgr w) \<and> ortLoaded w"
  proof -
    have u: "\<not> isInitialized (mgr ?w)" "initializationPromise (mgr ?w) = None"
      using that by simp_all
    show ?thesis using that by (simp add: initialize_new [OF u])
  qed
  have uninit: "\<not> isInitialized (mgr ?w)" if "single_flight_inv w"
    using inv_task(2) [OF that assms(1)] by simp
  show ?thesis
    unfolding s using assms(3) retry uninit by (simp add: load_failed_def)
qed

theorem failed_attempt_witness:
  "tasks (run_events sample_config (new_world True :: nat world) [Initialize True]) 0
     = Some (AwaitFetch True)
   \<and> failure_of (AwaitFetch True) (Response False ''Not Found'' 0 :: nat reply)
       = Some ''Failed to fetch model: Not Found''
   \<and> 0 < length (promises (run_events sample_config (new_world True :: nat world) [Initialize True]))
   \<and> initializationPromise (mgr (run_events sample_config (new_world True :: nat world)
         [Initialize True, Settle 0 (Response False ''Not Found'' 0)])) = None
   \<and> observed (run_events sample_config (new_world True :: nat world)
         [Initialize True, Settle 0 (Response False ''Not Found'' 0)]) (Attempt 0)
       = Rejected ''Failed to load AI model: Failed to fetch model: Not Found''
   \<and> fetches (run_events sample_config (new_world True :: nat world)
         [Initialize True, Settle 0 (Response False ''Not Found'' 0), Initialize True]) = 2"
proof -
  let ?w = "run_events sample_config (new_world True :: nat world) [Initialize True]"
  have h: "tasks ?w 0 = Some (AwaitFetch True)"
    "failure_of (AwaitFetch True) (Response False ''Not Found'' 0 :: nat reply)
       = Some ''Failed to fetch model: Not Found''"
    "0 < length (promises ?w)"
    and v: "\<not> isInitialized (mgr ?w)" "ortLoaded ?w" "modelBuffer (mgr ?w) = None" "fetches ?w = 1"
    by (simp_all add: run_events_def new_world_def new_manager_def initialize_def
      start_attempt_def Let_def)
  have r: "run_events sample_config (new_world True :: nat world)
         [Initialize True, Settle 0 (Response False ''Not Found'' 0)]
       = settle sample_config 0 (Response False ''Not Found'' 0) ?w"
    "run_events sample_config (new_world True :: nat world)
         [Initialize True, Settle 0 (Response False ''Not Found'' 0), Initialize True]
       = fst (initialize sample_config True (settle sample_config 0 (Response False ''Not Found'' 0) ?w))"
    by (simp_all add: run_events_def)
  from failed_attempt [OF h, of sample_config True] v h show ?thesis
    unfolding r by (simp add: sample_config_def)
qed

text \<open>
  The claim C2 as stated fails when the creation of the session fails after a complete
  download: the bytes stay cached and the retry does not fetch.
\<close>

theorem failure_keeps_model_bytes:
  "initializationPromise (mgr (run_events sample_config (new_world True) failing_run)) = None
   \<and> observed (run_events sample_config (new_world True) failing_run) (Attempt 0)
       = Rejected ''Failed to load AI model: bad model''
   \<and> modelBuffer (mgr (run_events sample_config (new_world True) failing_run)) = Some [1, 2, 3]
   \<and> modelBuffer (mgr (run_events sample_config (new_world True) failing_run)) \<noteq> None
   \<and> fetches (run_events sample_config (new_world True) failing_run) = 1
   \<and> fetches (run_events sample_config (new_world True) (failing_run @ [Initialize False])) = 1
   \<and> creates (run_events sample_config (new_world True) (failing_run @ [Initialize False])) = 2"
  by (simp add: run_events_def failing_run_def new_world_def new_manager_def initialize_def
      start_attempt_def settle_def Let_def report_def begin_create_def catch_error_def
      load_failed_def sample_config_def)

subsection \<open>Inference\<close>

lemma initialize_keeps_session:
  "isInitialized (mgr (fst (initialize cfg cb w))) = isInitialized (mgr w)"
  "session (mgr (fst (initialize cfg cb w))) = session (mgr w)"
  by (auto simp: initialize_def Let_def start_attempt_fields split: option.splits)

lemma resume_session:
  assumes "isInitialized (mgr w) \<longrightarrow> session (mgr w) \<noteq> None"
  shows "isInitialized (mgr (resume cfg p t r w)) \<longrightarrow> session (mgr (resume cfg p t r w)) \<noteq> None"
  using assms by (cases t; cases r) (auto simp: Let_def)

lemma step_session:
  assumes "isInitialized (mgr w) \<longrightarrow> session (mgr w) \<noteq> None"
  shows "isInitialized (mgr (step cfg w e)) \<longrightarrow> session (mgr (step cfg w e)) \<noteq> None"
proof (cases e)
  case (Initialize cb)
  with assms show ?thesis by (simp add: initialize_keeps_session)
next
  case (Settle p r)
  with assms resume_session [OF assms] show ?thesis
    by (simp add: settle_def split: option.splits)
next
  case Dispose
  with assms show ?thesis by (auto simp: dispose_def split: option.splits)
next
  case (Released ok)
  with assms show ?thesis by (auto simp: dispose_resume_def)
next
  case ClearCache
  with assms show ?thesis by (auto simp: clearCache_def dispose_def Let_def split: option.splits)
qed

lemma run_session:
  assumes "isInitialized (mgr w) \<longrightarrow> session (mgr w) \<noteq> None"
  shows "isInitialized (mgr (run_events cfg w es)) \<longrightarrow> session (mgr (run_events cfg w es)) \<noteq> None"
  using assms unfolding run_events_def
proof (induction es arbitrary: w)
  case Nil
  then show ?case by simp
next
  case (Cons e es)
  from Cons.IH [OF step_session [OF Cons.prems]] show ?case by simp
qed

text \<open>
  C7. \<open>runInference\<close> fails with the not-initialised error exactly when the manager is
  not \<open>Ready\<close>; when it is, the call is handed to the engine and gives the first of the
  named outputs (or the wrapped error of the engine). In every state that the manager
  reaches from its construction, \<open>Ready\<close> is the flag \<open>isInitialized\<close>.
\<close>

theorem inference_guard:
  "(runInference run m feeds = Inl not_initialized) = (\<not> ready m)
   \<and> (\<forall>s. isInitialized m \<and> session m = Some s \<longrightarrow>
         runInference run m feeds =
           (case run s feeds of
              Inl message \<Rightarrow> Inl (''Inference failed: '' @ message)
            | Inr results \<Rightarrow>
                (case results of [] \<Rightarrow> Inr None | (outputName, t) # rest \<Rightarrow> Inr (Some t))))
   \<and> (\<forall>ort es. ready (mgr (run_events cfg (new_world ort) es))
         = isInitialized (mgr (run_events cfg (new_world ort) es)))"
proof -
  have a: "(runInference run m feeds = Inl not_initialized) = (\<not> ready m)"
    by (auto simp: runInference_def ready_def not_initialized_def
        split: option.splits sum.splits list.splits)
  have b: "\<forall>s. isInitialized m \<and> session m = Some s \<longrightarrow>
         runInference run m feeds =
           (case run s feeds of
              Inl message \<Rightarrow> Inl (''Inference failed: '' @ message)
            | Inr results \<Rightarrow>
                (case results of [] \<Rightarrow> Inr None | (outputName, t) # rest \<Rightarrow> Inr (Some t)))"
    by (simp add: runInference_def)
  have "isInitialized (mgr (new_world ort)) \<longrightarrow> session (mgr (new_world ort)) \<noteq> None" for ort
    by (simp add: new_world_def new_manager_def)
  from run_session [OF this]
  have c: "\<forall>ort es. ready (mgr (run_events cfg (new_world ort) es))
         = isInitialized (mgr (run_events cfg (new_world ort) es))"
    unfolding ready_def by blast
  from a b c show ?thesis by blast
qed

theorem inference_guard_witness:
  "isInitialized (mgr ready_world) \<and> session (mgr ready_world) = Some 7
   \<and> ready (mgr ready_world)
   \<and> runInference sample_engine (mgr ready_world) 5 = Inr (Some 12)
   \<and> runInference sample_engine (mgr ready_world) 0 = Inl ''Inference failed: empty feeds''
   \<and> runInference sample_engine (mgr (new_world True)) 5 = Inl not_initialized"
proof -
  have v: "isInitialized (mgr ready_world)" "session (mgr ready_world) = Some 7"
    by (simp_all add: ready_world_def ready_run_def run_events_def new_world_def new_manager_def
        initialize_def start_attempt_def settle_def Let_def report_def begin_create_def)
  have n: "\<not> ready (mgr (new_world True :: nat world))"
    by (simp add: ready_def new_world_def new_manager_def)
  have g: "runInference sample_engine (mgr ready_world) feeds =
           (case sample_engine 7 feeds of
              Inl message \<Rightarrow> Inl (''Inference failed: '' @ message)
            | Inr results \<Rightarrow>
                (case results of [] \<Rightarrow> Inr None | (outputName, t) # rest \<Rightarrow> Inr (Some t)))"
    for feeds
    using inference_guard [of sample_engine "mgr ready_world" feeds sample_config] v by blast
  note g0 = inference_guard [of sample_engine "mgr (new_world True)" 5 sample_config]
  have "ready (mgr ready_world)" using v by (simp add: ready_def)
  moreover have "runInference sample_engine (mgr ready_world) 5 = Inr (Some 12)"
    by (simp add: g sample_engine_def)
  moreover have "runInference sample_engine (mgr ready_world) 0 = Inl ''Inference failed: empty feeds''"
    by (simp add: g sample_engine_def)
  moreover have "runInference sample_engine (mgr (new_world True)) 5 = Inl not_initialized"
    using g0 n by blast
  ultimately show ?thesis using v by blast
qed

subsection \<open>Disposal and the cache\<close>

text \<open>
  What holds of the teardown: a \<open>dispose\<close> that has run to its end leaves the
  manager uninitialised with its bytes; \<open>clearCache\<close> always drops the bytes; and
  when no session is held, \<open>clearCache\<close> is complete on return and the next
  \<open>initialize\<close> fetches the model again.
\<close>

lemma dispose_completed:
  assumes "session (mgr w) = Some s"
  shows "getInfo cfg (mgr (dispose_resume True (dispose w)))
     = \<lparr>info_isInitialized = False, hasModelBuffer = (modelBuffer (mgr w) \<noteq> None),
        modelPath = MODEL_PATH cfg, inputSize = INPUT_SIZE cfg\<rparr>"
  using assms by (simp add: dispose_def dispose_resume_def getInfo_def)

lemma clearCache_drops_bytes:
  "hasModelBuffer (getInfo cfg (mgr (clearCache w))) = False"
  by (simp add: clearCache_def getInfo_def Let_def)

lemma clearCache_without_session:
  assumes "session (mgr w) = None" and "ortLoaded w"
  shows "snd (initialize cfg cb (clearCache w)) = Attempt (length (promises w))"
    and "fetches (fst (initialize cfg cb (clearCache w))) = fetches w + 1"
    and "tasks (fst (initialize cfg cb (clearCache w))) (length (promises w)) = Some (AwaitFetch cb)"
proof -
  have c: "clearCache w = w\<lparr>mgr := (mgr w)\<lparr>isInitialized := False,
      initializationPromise := None, modelBuffer := None\<rparr>\<rparr>"
    using assms(1) by (simp add: clearCache_def dispose_def Let_def)
  have u: "\<not> isInitialized (mgr (clearCache w))" "initializationPromise (mgr (clearCache w)) = None"
    by (simp_all add: c)
  show "snd (initialize cfg cb (clearCache w)) = Attempt (length (promises w))"
    and "fetches (fst (initialize cfg cb (clearCache w))) = fetches w + 1"
    and "tasks (fst (initialize cfg cb (clearCache w))) (length (promises w)) = Some (AwaitFetch cb)"
    using assms(2) by (simp_all add: initialize_new [OF u]) (simp_all add: c)
qed

text \<open>
  C8, at the input where the code departs from it. \<open>clearCache\<close> on a ready manager
  returns with the model bytes dropped but with \<open>isInitialized\<close> still set, because
  the body of \<open>dispose\<close> is suspended at the release of the session. A call of
  \<open>initialize\<close> that follows at once returns immediately and fetches nothing; when the
  release has settled the manager is uninitialised, without bytes and without an attempt
  in flight.
\<close>

theorem clearCache_keeps_initialized:
  "isInitialized (mgr ready_world) \<and> session (mgr ready_world) = Some 7
   \<and> modelBuffer (mgr ready_world) = Some [1, 2, 3] \<and> fetches ready_world = 1
   \<and> hasModelBuffer (getInfo sample_config (mgr (clearCache ready_world))) = False
   \<and> info_isInitialized (getInfo sample_config (mgr (clearCache ready_world))) = True
   \<and> snd (initialize sample_config False (clearCache ready_world)) = Immediate
   \<and> fetches (fst (initialize sample_config False (clearCache ready_world))) = 1
   \<and> isInitialized (mgr (run_events sample_config ready_world
        [ClearCache, Initialize False, Released True])) = False
   \<and> modelBuffer (mgr (run_events sample_config ready_world
        [ClearCache, Initialize False, Released True])) = None
   \<and> fetches (run_events sample_config ready_world
        [ClearCache, Initialize False, Released True]) = 1
   \<and> tasks (run_events sample_config ready_world
        [ClearCache, Initialize False, Released True]) 1 = None"
  by (simp add: ready_world_def ready_run_def run_events_def new_world_def new_manager_def
      initialize_def start_attempt_def settle_def Let_def report_def begin_create_def
      clearCache_def dispose_def dispose_resume_def getInfo_def)

end
